theory Spec2Isabelle
  imports Main "HOL-Library.AList"
begin

section \<open>Python values and dictionaries\<close>

text \<open>
  A Python \<^verbatim>\<open>dict\<close> keeps its keys unique and in insertion order: it is an association
  list, and the assignment \<^verbatim>\<open>d[k] = v\<close> replaces the value in place when the key is
  there and appends the pair otherwise.
\<close>

type_synonym ('k, 'v) dict = "('k \<times> 'v) list"

definition dict_contains :: "('k, 'v) dict \<Rightarrow> 'k \<Rightarrow> bool" where
  \<comment> \<open>\<^verbatim>\<open>k in d\<close>\<close>
  "dict_contains d k = (k \<in> set (map fst d))"

definition dict_get :: "('k, 'v) dict \<Rightarrow> 'k \<Rightarrow> 'v \<Rightarrow> 'v" where
  \<comment> \<open>\<^verbatim>\<open>d.get(k, default)\<close>\<close>
  "dict_get d k dflt = (case map_of d k of None \<Rightarrow> dflt | Some v \<Rightarrow> v)"

definition dict_set :: "('k, 'v) dict \<Rightarrow> 'k \<Rightarrow> 'v \<Rightarrow> ('k, 'v) dict" where
  \<comment> \<open>\<^verbatim>\<open>d[k] = v\<close>\<close>
  "dict_set d k v = AList.update k v d"

definition dict_update :: "('k, 'v) dict \<Rightarrow> ('k, 'v) dict \<Rightarrow> ('k, 'v) dict" where
  \<comment> \<open>\<^verbatim>\<open>d.update(other)\<close>\<close>
  "dict_update d other = fold (\<lambda>kv acc. dict_set acc (fst kv) (snd kv)) other d"

text \<open>The values stored in the attribute dictionaries of nodes and edges.\<close>

datatype py_value = PyStr string | PyInt int | PyDict "(string \<times> py_value) list"

type_synonym attrs = "(string, py_value) dict"

definition truthy :: "string option \<Rightarrow> bool" where
  \<comment> \<open>the truth value of \<^verbatim>\<open>None\<close> and of a string: only a non-empty string is true\<close>
  "truthy x = (case x of None \<Rightarrow> False | Some s \<Rightarrow> s \<noteq> [])"

section \<open>The extraction result\<close>

text \<open>
  The parsed JSON object. A key that is absent from an object is \<open>None\<close>: the source
  reads every field with \<^verbatim>\<open>.get\<close>.
\<close>

record relationship_obj =
  source :: "string option"
  target :: "string option"
  relationship :: "string option"

record extraction_result =
  concepts :: "string list option"
  relationships :: "relationship_obj list option"

section \<open>The graph class of the networkx library\<close>

text \<open>
  \<^verbatim>\<open>nx.Graph\<close> holds two dictionaries: \<^verbatim>\<open>_node\<close>, from a node to its attribute
  dictionary, and \<^verbatim>\<open>_adj\<close>, from a node to the dictionary of its neighbours, each
  neighbour with the attribute dictionary of the edge. The operations below follow the
  library's methods \<^verbatim>\<open>add_node\<close>, \<^verbatim>\<open>add_edge\<close>, \<^verbatim>\<open>degree\<close>, \<^verbatim>\<open>nodes\<close> and
  \<^verbatim>\<open>edges\<close>. The library stores one edge dictionary under both \<^verbatim>\<open>_adj[u][v]\<close> and
  \<^verbatim>\<open>_adj[v][u]\<close>; every write goes to both entries, so the model stores the value twice.
\<close>

record graph =
  node :: "(string, attrs) dict"
  adj :: "(string, (string, attrs) dict) dict"

definition empty_graph :: graph where
  "empty_graph = \<lparr>node = [], adj = []\<rparr>"

definition ensure_node :: "string \<Rightarrow> graph \<Rightarrow> graph" where
  \<comment> \<open>\<^verbatim>\<open>if u not in self._node: self._adj[u] = {}; self._node[u] = {}\<close>\<close>
  "ensure_node u G =
     (if \<not> dict_contains (node G) u
      then G\<lparr>adj := dict_set (adj G) u [], node := dict_set (node G) u []\<rparr>
      else G)"

definition add_node :: "string \<Rightarrow> attrs \<Rightarrow> graph \<Rightarrow> graph" where
  "add_node n attr G =
     (if \<not> dict_contains (node G) n
      then G\<lparr>adj := dict_set (adj G) n [], node := dict_set (node G) n (dict_update [] attr)\<rparr>
      else G\<lparr>node := dict_set (node G) n (dict_update (dict_get (node G) n []) attr)\<rparr>)"

text \<open>
  In \<^verbatim>\<open>add_edge\<close> the reads \<^verbatim>\<open>self._adj[u]\<close> and \<^verbatim>\<open>self._adj[v]\<close> find their key: both
  nodes have just been ensured, and \<open>graph_inv\<close> below shows that the two dictionaries
  of a graph built from the empty one have the same keys. The default of \<open>dict_get\<close>
  in these two reads is never taken.
\<close>

definition add_edge :: "string \<Rightarrow> string \<Rightarrow> attrs \<Rightarrow> graph \<Rightarrow> graph" where
  "add_edge u v attr G =
     (let G2 = ensure_node v (ensure_node u G);
          datadict = dict_update (dict_get (dict_get (adj G2) u []) v []) attr;
          adj1 = dict_set (adj G2) u (dict_set (dict_get (adj G2) u []) v datadict);
          adj2 = dict_set adj1 v (dict_set (dict_get adj1 v []) u datadict)
      in G2\<lparr>adj := adj2\<rparr>)"

definition nodes :: "graph \<Rightarrow> string list" where
  \<comment> \<open>\<^verbatim>\<open>G.nodes()\<close>, in iteration order\<close>
  "nodes G = map fst (node G)"

definition node_degree :: "string \<times> (string, attrs) dict \<Rightarrow> int" where
  \<comment> \<open>\<^verbatim>\<open>len(nbrs) + (n in nbrs)\<close>\<close>
  "node_degree p = int (length (snd p)) + (if dict_contains (snd p) (fst p) then 1 else 0)"

definition degree :: "graph \<Rightarrow> (string, int) dict" where
  \<comment> \<open>\<^verbatim>\<open>dict(G.degree())\<close>\<close>
  "degree G = map (\<lambda>p. (fst p, node_degree p)) (adj G)"

definition number_of_edges :: "graph \<Rightarrow> int" where
  \<comment> \<open>\<^verbatim>\<open>len(G.edges())\<close>: the sum of the degrees, halved\<close>
  "number_of_edges G = sum_list (map node_degree (adj G)) div 2"

definition number_of_nodes :: "graph \<Rightarrow> int" where
  \<comment> \<open>\<^verbatim>\<open>len(G.nodes())\<close>\<close>
  "number_of_nodes G = int (length (node G))"

definition has_edge :: "graph \<Rightarrow> string \<Rightarrow> string \<Rightarrow> bool" where
  \<comment> \<open>\<^verbatim>\<open>G.has_edge(u, v)\<close>\<close>
  "has_edge G u v = (case map_of (adj G) u of None \<Rightarrow> False | Some nbrs \<Rightarrow> dict_contains nbrs v)"

definition edge_data :: "graph \<Rightarrow> string \<Rightarrow> string \<Rightarrow> attrs option" where
  \<comment> \<open>\<^verbatim>\<open>G.get_edge_data(u, v)\<close>\<close>
  "edge_data G u v = (case map_of (adj G) u of None \<Rightarrow> None | Some nbrs \<Rightarrow> map_of nbrs v)"

section \<open>The Graph Builder\<close>

definition add_concept :: "string \<Rightarrow> graph \<Rightarrow> graph" where
  \<comment> \<open>\<^verbatim>\<open>G.add_node(concept, title=concept)\<close>\<close>
  "add_concept concept G = add_node concept [(''title'', PyStr concept)] G"

definition add_relationship :: "relationship_obj \<Rightarrow> graph \<Rightarrow> graph" where
  "add_relationship rel G =
     (let src = source rel;
          tgt = target rel;
          r = (case relationship rel of None \<Rightarrow> [] | Some l \<Rightarrow> l)
      in case (src, tgt) of
           (Some s, Some t) \<Rightarrow>
             if truthy src \<and> truthy tgt
             then add_edge s t [(''title'', PyStr r), (''label'', PyStr r)] G
             else G
         | _ \<Rightarrow> G)"

definition get_concepts :: "extraction_result \<Rightarrow> string list" where
  \<comment> \<open>\<^verbatim>\<open>data.get("concepts", [])\<close>\<close>
  "get_concepts data = (case concepts data of None \<Rightarrow> [] | Some cs \<Rightarrow> cs)"

definition get_relationships :: "extraction_result \<Rightarrow> relationship_obj list" where
  \<comment> \<open>\<^verbatim>\<open>data.get("relationships", [])\<close>\<close>
  "get_relationships data = (case relationships data of None \<Rightarrow> [] | Some rs \<Rightarrow> rs)"

definition build_structure :: "extraction_result \<Rightarrow> graph" where
  \<comment> \<open>the two loops that add the nodes and the edges\<close>
  "build_structure data =
     fold add_relationship (get_relationships data) (fold add_concept (get_concepts data) empty_graph)"

definition colors :: "string list" where
  "colors = [''#FF5733'', ''#33FF57'', ''#3357FF'', ''#F333FF'', ''#33FFF5'', ''#FFFF33'']"

definition default_color :: string where
  "default_color = ''#97c2fc''"

definition color_community :: "nat \<times> string list \<Rightarrow> (string, string) dict \<Rightarrow> (string, string) dict" where
  \<comment> \<open>the body of the loop over \<^verbatim>\<open>enumerate(communities)\<close>\<close>
  "color_community ic node_colors =
     (let color = colors ! (fst ic mod length colors)
      in fold (\<lambda>n acc. dict_set acc n color) (snd ic) node_colors)"

definition community_colors :: "string list list \<Rightarrow> (string, string) dict" where
  "community_colors communities = fold color_community (enumerate 0 communities) []"

definition fallback_colors :: "graph \<Rightarrow> (string, string) dict" where
  \<comment> \<open>\<^verbatim>\<open>{node: "#97c2fc" for node in G.nodes()}\<close>\<close>
  "fallback_colors G = fold (\<lambda>n acc. dict_set acc n default_color) (nodes G) []"

definition font :: py_value where
  "font = PyDict [(''color'', PyStr ''white''), (''size'', PyInt 16), (''face'', PyStr ''Verdana''),
                (''background'', PyStr ''rgba(0,0,0,0.7)''), (''strokeWidth'', PyInt 2),
                (''strokeColor'', PyStr ''#000000'')]"

definition set_node_attr :: "string \<Rightarrow> string \<Rightarrow> py_value \<Rightarrow> graph \<Rightarrow> graph" where
  \<comment> \<open>\<^verbatim>\<open>G.nodes[n][key] = value\<close>, for a node of the graph\<close>
  "set_node_attr n key val G =
     G\<lparr>node := dict_set (node G) n (dict_set (dict_get (node G) n []) key val)\<rparr>"

definition style_node :: "(string, int) dict \<Rightarrow> (string, string) dict \<Rightarrow> string \<Rightarrow> graph \<Rightarrow> graph" where
  \<comment> \<open>the body of the last loop; \<^verbatim>\<open>degrees[node]\<close> finds its key, a node of the graph\<close>
  "style_node degrees node_colors n G =
     (let sz = 20 + dict_get degrees n 0 * 5;
          color = dict_get node_colors n default_color
      in set_node_attr n ''font'' font
           (set_node_attr n ''color'' (PyStr color)
              (set_node_attr n ''size'' (PyInt sz) G)))"

text \<open>
  The community detection of the library, \<^verbatim>\<open>greedy_modularity_communities\<close>, is a
  parameter of the builder: it returns the communities in order, each one a collection
  of nodes, or raises (\<open>None\<close>), which the source catches with a bare \<^verbatim>\<open>except\<close>.
\<close>

definition create_networkx_graph ::
  "(graph \<Rightarrow> string list list option) \<Rightarrow> extraction_result \<Rightarrow> graph" where
  "create_networkx_graph community data =
     (let G = build_structure data;
          degrees = degree G;
          node_colors = (case community G of
                           Some communities \<Rightarrow> community_colors communities
                         | None \<Rightarrow> fallback_colors G)
      in fold (style_node degrees node_colors) (nodes G) G)"

section \<open>Reading a graph\<close>

text \<open>
  How the statements below look into a graph: the attribute of a node
  (\<^verbatim>\<open>G.nodes[n].get(key)\<close>), the label of an edge (\<^verbatim>\<open>G[u][v].get("label")\<close>), the edges
  as unordered pairs of nodes, and the labels found on all the edges.
\<close>

definition node_attr :: "graph \<Rightarrow> string \<Rightarrow> string \<Rightarrow> py_value option" where
  "node_attr G n key = (case map_of (node G) n of None \<Rightarrow> None | Some a \<Rightarrow> map_of a key)"

definition edge_label :: "graph \<Rightarrow> string \<Rightarrow> string \<Rightarrow> py_value option" where
  "edge_label G u v = (case edge_data G u v of None \<Rightarrow> None | Some d \<Rightarrow> map_of d ''label'')"

definition edge_set :: "graph \<Rightarrow> string set set" where
  "edge_set G = (\<Union>p \<in> set (adj G). (\<lambda>q. {fst p, fst q}) ` set (snd p))"

definition edge_labels :: "graph \<Rightarrow> py_value option list" where
  "edge_labels G = concat (map (\<lambda>p. map (\<lambda>q. map_of (snd q) ''label'') (snd p)) (adj G))"

definition sum_degrees :: "graph \<Rightarrow> int" where
  \<comment> \<open>the sum of the values of \<^verbatim>\<open>dict(G.degree())\<close>\<close>
  "sum_degrees G = sum_list (map node_degree (adj G))"

section \<open>Reading an extraction result\<close>

text \<open>
  The pair of nodes a relationship joins, when the builder's test
  \<^verbatim>\<open>if source and target\<close> lets it through, and the label it carries.
\<close>

definition endpoints :: "relationship_obj \<Rightarrow> (string \<times> string) option" where
  "endpoints rel =
     (case (source rel, target rel) of
        (Some s, Some t) \<Rightarrow> if s \<noteq> [] \<and> t \<noteq> [] then Some (s, t) else None
      | _ \<Rightarrow> None)"

definition label_of :: "relationship_obj \<Rightarrow> string" where
  \<comment> \<open>\<^verbatim>\<open>rel.get("relationship", "")\<close>\<close>
  "label_of rel = (case relationship rel of None \<Rightarrow> [] | Some l \<Rightarrow> l)"

definition joins :: "relationship_obj \<Rightarrow> string \<Rightarrow> string \<Rightarrow> bool" where
  \<comment> \<open>the relationship is inserted and lies between \<open>x\<close> and \<open>y\<close>, in either direction\<close>
  "joins rel x y = (endpoints rel = Some (x, y) \<or> endpoints rel = Some (y, x))"

definition linked_nodes :: "relationship_obj list \<Rightarrow> string set" where
  \<comment> \<open>the endpoints of the relationships that are inserted\<close>
  "linked_nodes rs = (\<Union>rel \<in> set rs. case endpoints rel of None \<Rightarrow> {} | Some (s, t) \<Rightarrow> {s, t})"

definition referenced_nodes :: "relationship_obj list \<Rightarrow> string set" where
  \<comment> \<open>every string that some relationship names as its source or its target\<close>
  "referenced_nodes rs = (\<Union>rel \<in> set rs. set_option (source rel) \<union> set_option (target rel))"

definition edge_attrs :: "string \<Rightarrow> attrs" where
  \<comment> \<open>the keyword arguments of the call of \<^verbatim>\<open>add_edge\<close>\<close>
  "edge_attrs r = [(''title'', PyStr r), (''label'', PyStr r)]"

section \<open>Notions of the proofs\<close>

text \<open>
  The invariant of a graph that was built from the empty one with \<^verbatim>\<open>add_node\<close> and
  \<^verbatim>\<open>add_edge\<close>: both dictionaries have the same keys, each once; the neighbours of a
  node are nodes; and the two entries of an edge hold the same data.
\<close>

definition graph_inv :: "graph \<Rightarrow> bool" where
  "graph_inv G \<longleftrightarrow>
     distinct (map fst (node G)) \<and> distinct (map fst (adj G)) \<and>
     fst ` set (node G) = fst ` set (adj G) \<and>
     (\<forall>n nbrs. map_of (adj G) n = Some nbrs \<longrightarrow>
        distinct (map fst nbrs) \<and> fst ` set nbrs \<subseteq> fst ` set (adj G)) \<and>
     (\<forall>u v. edge_data G u v = edge_data G v u)"

text \<open>The last three assignments of \<^verbatim>\<open>add_edge\<close>, on a graph that holds both nodes.\<close>

definition link :: "string \<Rightarrow> string \<Rightarrow> attrs \<Rightarrow> graph \<Rightarrow> graph" where
  "link u v attr G2 =
     (let datadict = dict_update (dict_get (dict_get (adj G2) u []) v []) attr;
          adj1 = dict_set (adj G2) u (dict_set (dict_get (adj G2) u []) v datadict);
          adj2 = dict_set adj1 v (dict_set (dict_get adj1 v []) u datadict)
      in G2\<lparr>adj := adj2\<rparr>)"

text \<open>The sum of the degrees counts every edge of the graph twice.\<close>

definition handshake :: "graph \<Rightarrow> bool" where
  "handshake G \<longleftrightarrow> graph_inv G \<and> sum_degrees G = 2 * int (card (edge_set G))"

definition node_colors_of :: "(graph \<Rightarrow> string list list option) \<Rightarrow> graph \<Rightarrow> (string, string) dict" where
  \<comment> \<open>the dictionary \<^verbatim>\<open>node_colors\<close> at the end of the \<^verbatim>\<open>try\<close> statement\<close>
  "node_colors_of community G =
     (case community G of Some communities \<Rightarrow> community_colors communities | None \<Rightarrow> fallback_colors G)"



definition no_communities :: "graph \<Rightarrow> string list list option" where
  "no_communities G = None"

section \<open>The Extraction Client and the Application Shell\<close>

text \<open>
  What the page shows is a list of events, in order; the number of calls made to the
  provider is counted. The provider's call and \<^verbatim>\<open>json.loads\<close> are parameters: each
  returns its value (\<open>Inr\<close>) or raises, and \<open>Inl\<close> carries the text of the exception.
  The call takes the key and the text: the rest of the request (the prompt around the
  text, the model, the temperature, the response format) is fixed. A parsed response
  is taken to have the shape the prompt asks for. The renderer is a parameter too.
  Messages are written without the emoji that starts them in the source.
\<close>

datatype st_event =
    St_spinner string
  | St_error string
  | St_warning string
  | St_metric string int
  | St_subheader string
  | Components_html string

record world =
  api_calls :: nat
  ui :: "st_event list"

definition show_event :: "st_event \<Rightarrow> world \<Rightarrow> world" where
  "show_event e w = w\<lparr>ui := ui w @ [e]\<rparr>"

definition extract_knowledge_graph ::
  "(string \<Rightarrow> string \<Rightarrow> string + string) \<Rightarrow> (string \<Rightarrow> string + extraction_result) \<Rightarrow>
   string \<Rightarrow> string \<Rightarrow> world \<Rightarrow> extraction_result option \<times> world" where
  "extract_knowledge_graph chat_completion json_loads text api_key w =
     (let w1 = w\<lparr>api_calls := Suc (api_calls w)\<rparr>
      in case chat_completion api_key text of
           Inl e \<Rightarrow> (None, show_event (St_error (''Error calling Groq API: '' @ e)) w1)
         | Inr content \<Rightarrow>
             (case json_loads content of
                Inl e \<Rightarrow> (None, show_event (St_error (''Error calling Groq API: '' @ e)) w1)
              | Inr data \<Rightarrow> (Some data, w1)))"

definition is_space :: "char \<Rightarrow> bool" where
  \<comment> \<open>the white space of \<^verbatim>\<open>str.strip\<close> among the code points below 256\<close>
  "is_space c =
     (let n = (of_char c :: nat)
      in (9 \<le> n \<and> n \<le> 13) \<or> (28 \<le> n \<and> n \<le> 32) \<or> n = 133 \<or> n = 160)"

definition strip :: "string \<Rightarrow> string" where
  "strip s = rev (dropWhile is_space (rev (dropWhile is_space s)))"

definition data_truthy :: "extraction_result \<Rightarrow> bool" where
  \<comment> \<open>\<^verbatim>\<open>if data\<close>: a dictionary is true when it has a key\<close>
  "data_truthy data = (concepts data \<noteq> None \<or> relationships data \<noteq> None)"

text \<open>
  \<open>main\<close> returns the graph bound to \<^verbatim>\<open>nx_graph\<close>, \<open>None\<close> when the builder is not
  reached, and the page. Its arguments after the parameters are the key that
  \<^verbatim>\<open>get_groq_api_key\<close> found, the text of the text area and whether the button is pressed.
\<close>

definition main ::
  "(string \<Rightarrow> string \<Rightarrow> string + string) \<Rightarrow> (string \<Rightarrow> string + extraction_result) \<Rightarrow>
   (graph \<Rightarrow> string list list option) \<Rightarrow> (graph \<Rightarrow> string) \<Rightarrow>
   string option \<Rightarrow> string \<Rightarrow> bool \<Rightarrow> world \<Rightarrow> graph option \<times> world" where
  "main chat_completion json_loads community create_pyvis_graph api_key text_input pressed w =
     (case api_key of
        None \<Rightarrow> (None, show_event (St_warning ''Please enter your Groq API Key in the sidebar to start.'') w)
      | Some key \<Rightarrow>
          if \<not> truthy api_key
          then (None, show_event (St_warning ''Please enter your Groq API Key in the sidebar to start.'') w)
          else if \<not> pressed then (None, w)
          else if strip text_input = []
          then (None, show_event (St_warning ''Please enter some text first.'') w)
          else
            (case extract_knowledge_graph chat_completion json_loads text_input key
                    (show_event (St_spinner ''Processing with Llama-3 on Groq...'') w) of
               (None, w1) \<Rightarrow> (None, w1)
             | (Some data, w1) \<Rightarrow>
                 if \<not> data_truthy data then (None, w1)
                 else
                   (let nx_graph = create_networkx_graph community data
                    in if number_of_nodes nx_graph > 0
                       then (Some nx_graph,
                             show_event (Components_html (create_pyvis_graph nx_graph))
                               (show_event (St_subheader ''Interactive Graph Result:'')
                                  (show_event (St_metric ''Connections'' (number_of_edges nx_graph))
                                     (show_event (St_metric ''Concepts Found'' (number_of_nodes nx_graph)) w1))))
                       else (Some nx_graph,
                             show_event (St_warning ''No concepts found in the text. Try a different text.'') w1))))"

text \<open>
  Environments for the examples: a provider whose call raises, a provider that answers
  with text that is not JSON, a parser that rejects every text, and a renderer.
\<close>

definition unreachable_provider :: "string \<Rightarrow> string \<Rightarrow> string + string" where
  "unreachable_provider key text = Inl ''Connection error.''"

definition malformed_provider :: "string \<Rightarrow> string \<Rightarrow> string + string" where
  "malformed_provider key text = Inr ''{concepts''"

definition rejecting_parser :: "string \<Rightarrow> string + extraction_result" where
  "rejecting_parser content = Inl ''Expecting property name enclosed in double quotes''"

definition plain_renderer :: "graph \<Rightarrow> string" where
  "plain_renderer G = ''<html></html>''"

section \<open>Dictionaries\<close>

lemma keys_dict_set: "fst ` set (dict_set d k v) = insert k (fst ` set d)"
  using AList.dom_update [of k v d] by (simp add: dict_set_def)

lemma map_of_dict_set: "map_of (dict_set d k v) = (map_of d)(k \<mapsto> v)"
  by (simp add: dict_set_def update_conv')

lemma distinct_dict_set: "distinct (map fst d) \<Longrightarrow> distinct (map fst (dict_set d k v))"
  by (simp add: dict_set_def distinct_update)

lemma length_dict_set:
  "length (dict_set d k v) = (if dict_contains d k then length d else Suc (length d))"
  unfolding dict_set_def dict_contains_def
  by (induction d) auto

lemma dict_contains_map_of: "dict_contains d k \<longleftrightarrow> map_of d k \<noteq> None"
  by (simp add: dict_contains_def map_of_eq_None_iff)

lemma dict_contains_dict_set: "dict_contains (dict_set d k v) k' \<longleftrightarrow> k' = k \<or> dict_contains d k'"
  by (auto simp: dict_contains_def keys_dict_set)

lemma dict_get_dict_set:
  "dict_get (dict_set d k v) k' dflt = (if k' = k then v else dict_get d k' dflt)"
  by (simp add: dict_get_def map_of_dict_set)

lemma sum_dict_set:
  fixes g :: "'k \<times> 'v \<Rightarrow> int"
  assumes "distinct (map fst d)"
  shows "sum_list (map g (dict_set d k v)) =
         sum_list (map g d) - (case map_of d k of None \<Rightarrow> 0 | Some old \<Rightarrow> g (k, old)) + g (k, v)"
  using assms unfolding dict_set_def
proof (induction d)
  case Nil
  then show ?case by simp
next
  case (Cons p d)
  then show ?case
    by (cases p) (auto simp: map_of_eq_None_iff image_iff split: option.splits)
qed

lemma graph_inv_node: "graph_inv G \<Longrightarrow> distinct (map fst (node G))"
  and graph_inv_adj: "graph_inv G \<Longrightarrow> distinct (map fst (adj G))"
  and graph_inv_keys: "graph_inv G \<Longrightarrow> fst ` set (node G) = fst ` set (adj G)"
  and graph_inv_nbrs: "graph_inv G \<Longrightarrow> map_of (adj G) n = Some nbrs \<Longrightarrow> distinct (map fst nbrs)"
  and graph_inv_closed: "graph_inv G \<Longrightarrow> map_of (adj G) n = Some nbrs \<Longrightarrow> fst ` set nbrs \<subseteq> fst ` set (adj G)"
  and graph_inv_sym: "graph_inv G \<Longrightarrow> edge_data G u v = edge_data G v u"
  unfolding graph_inv_def by blast+

lemma edge_data_nbrs: "map_of (dict_get (adj G) u []) v = edge_data G u v"
  by (simp add: dict_get_def edge_data_def split: option.splits)

lemma has_edge_edge_data: "has_edge G u v \<longleftrightarrow> edge_data G u v \<noteq> None"
  by (simp add: has_edge_def edge_data_def dict_contains_map_of split: option.splits)

lemma graph_inv_empty: "graph_inv empty_graph"
  by (simp add: graph_inv_def empty_graph_def edge_data_def)

lemma nodes_ensure_node: "set (nodes (ensure_node u G)) = insert u (set (nodes G))"
  by (auto simp: nodes_def ensure_node_def dict_contains_def keys_dict_set)

lemma edge_data_ensure_node:
  assumes "fst ` set (node G) = fst ` set (adj G)"
  shows "edge_data (ensure_node u G) x y = edge_data G x y"
proof (cases "dict_contains (node G) u")
  case True
  then show ?thesis by (simp add: ensure_node_def)
next
  case False
  with assms have "map_of (adj G) u = None"
    by (simp add: dict_contains_def map_of_eq_None_iff)
  with False show ?thesis
    by (simp add: ensure_node_def edge_data_def map_of_dict_set)
qed

lemma graph_inv_ensure_node:
  assumes "graph_inv G"
  shows "graph_inv (ensure_node u G)"
proof (cases "dict_contains (node G) u")
  case True
  with assms show ?thesis by (simp add: ensure_node_def)
next
  case False
  from assms have keys: "fst ` set (node G) = fst ` set (adj G)"
    by (simp add: graph_inv_def)
  have ed: "\<And>x y. edge_data (ensure_node u G) x y = edge_data G x y"
    by (rule edge_data_ensure_node [OF keys])
  from False have eq: "ensure_node u G = G\<lparr>adj := dict_set (adj G) u [], node := dict_set (node G) u []\<rparr>"
    by (simp add: ensure_node_def)
  show ?thesis
    unfolding graph_inv_def
  proof (intro conjI allI impI)
    show "distinct (map fst (node (ensure_node u G)))"
      using assms by (simp add: eq graph_inv_def distinct_dict_set)
    show "distinct (map fst (adj (ensure_node u G)))"
      using assms by (simp add: eq graph_inv_def distinct_dict_set)
    show "fst ` set (node (ensure_node u G)) = fst ` set (adj (ensure_node u G))"
      using keys by (simp add: eq keys_dict_set)
    show "edge_data (ensure_node u G) a b = edge_data (ensure_node u G) b a" for a b
      using assms by (simp add: ed graph_inv_def)
  next
    fix n nbrs
    assume "map_of (adj (ensure_node u G)) n = Some nbrs"
    then have "nbrs = [] \<or> map_of (adj G) n = Some nbrs"
      by (auto simp: eq map_of_dict_set split: if_splits)
    then show "distinct (map fst nbrs)"
      using graph_inv_nbrs [OF assms] by auto
    from \<open>nbrs = [] \<or> map_of (adj G) n = Some nbrs\<close>
    have "fst ` set nbrs \<subseteq> fst ` set (adj G)"
    proof
      assume "nbrs = []"
      then show ?thesis by simp
    next
      assume "map_of (adj G) n = Some nbrs"
      then show ?thesis by (rule graph_inv_closed [OF assms])
    qed
    then show "fst ` set nbrs \<subseteq> fst ` set (adj (ensure_node u G))"
      by (auto simp: eq keys_dict_set)
  qed
qed

lemma sum_degree_ensure_node:
  assumes "graph_inv G"
  shows "sum_list (map node_degree (adj (ensure_node u G))) = sum_list (map node_degree (adj G))"
proof (cases "dict_contains (node G) u")
  case True
  then show ?thesis by (simp add: ensure_node_def)
next
  case False
  with assms have "map_of (adj G) u = None"
    by (simp add: graph_inv_def dict_contains_def map_of_eq_None_iff)
  moreover from assms have "distinct (map fst (adj G))" by (simp add: graph_inv_def)
  ultimately show ?thesis
    using False by (simp add: ensure_node_def sum_dict_set node_degree_def dict_contains_def)
qed

lemma keys_list_dict_set:
  "map fst (dict_set d k v) = (if k \<in> fst ` set d then map fst d else map fst d @ [k])"
  by (simp add: dict_set_def update_keys)

lemma graph_inv_cong:
  assumes "map fst (node G) = map fst (node H)" and "adj G = adj H"
  shows "graph_inv G = graph_inv H"
proof -
  from assms(1) have "set (map fst (node G)) = set (map fst (node H))" by simp
  then have "fst ` set (node G) = fst ` set (node H)" by simp
  with assms show ?thesis
    by (simp add: graph_inv_def edge_data_def)
qed

lemma adj_add_node: "adj (add_node n a G) = adj (ensure_node n G)"
  by (simp add: add_node_def ensure_node_def)

lemma keys_add_node: "map fst (node (add_node n a G)) = map fst (node (ensure_node n G))"
  by (simp add: add_node_def ensure_node_def keys_list_dict_set dict_contains_def)

lemma nodes_add_node: "set (nodes (add_node n a G)) = insert n (set (nodes G))"
  using nodes_ensure_node [of n G] by (simp add: nodes_def keys_add_node)

lemma graph_inv_add_node: "graph_inv G \<Longrightarrow> graph_inv (add_node n a G)"
  using graph_inv_cong [OF keys_add_node adj_add_node] graph_inv_ensure_node by blast

lemma edge_data_cong: "adj G = adj H \<Longrightarrow> edge_data G = edge_data H"
  by (simp add: edge_data_def fun_eq_iff)

lemma edge_data_add_node:
  "graph_inv G \<Longrightarrow> edge_data (add_node n a G) x y = edge_data G x y"
  using edge_data_cong [OF adj_add_node] edge_data_ensure_node [OF graph_inv_keys] by metis

lemma sum_degree_add_node:
  "graph_inv G \<Longrightarrow> sum_list (map node_degree (adj (add_node n a G))) = sum_list (map node_degree (adj G))"
  by (simp add: adj_add_node sum_degree_ensure_node)

lemma add_edge_link: "add_edge u v attr G = link u v attr (ensure_node v (ensure_node u G))"
  by (simp add: add_edge_def link_def Let_def)

lemma node_link: "node (link u v attr G) = node G"
  by (simp add: link_def Let_def)

lemma map_of_adj_link:
  "map_of (adj (link u v attr G)) x =
     (let dd = dict_update (dict_get (dict_get (adj G) u []) v []) attr;
          nu = dict_set (dict_get (adj G) u []) v dd
      in if x = v then Some (dict_set (if v = u then nu else dict_get (adj G) v []) u dd)
         else if x = u then Some nu
         else map_of (adj G) x)"
  by (simp add: link_def Let_def map_of_dict_set dict_get_dict_set)

lemma edge_data_link:
  "edge_data (link u v attr G) x y =
     (if (x = u \<and> y = v) \<or> (x = v \<and> y = u)
      then Some (dict_update (case edge_data G u v of None \<Rightarrow> [] | Some d \<Rightarrow> d) attr)
      else edge_data G x y)"
proof -
  have dd: "dict_get (dict_get (adj G) u []) v [] = (case edge_data G u v of None \<Rightarrow> [] | Some d \<Rightarrow> d)"
    by (simp add: dict_get_def edge_data_def split: option.splits)
  show ?thesis
    unfolding edge_data_def [of "link u v attr G"] map_of_adj_link Let_def dd
    by (auto simp: map_of_dict_set edge_data_nbrs)
       (auto simp: edge_data_def)
qed

lemma keys_adj_link:
  assumes "u \<in> fst ` set (adj G)" and "v \<in> fst ` set (adj G)"
  shows "map fst (adj (link u v attr G)) = map fst (adj G)"
  using assms by (simp add: link_def Let_def keys_list_dict_set keys_dict_set)

lemma map_of_dict_get: "k \<in> fst ` set d \<Longrightarrow> map_of d k = Some (dict_get d k dflt)"
  by (cases "map_of d k") (auto simp: dict_get_def map_of_eq_None_iff)

lemma graph_inv_link:
  assumes inv: "graph_inv G" and u: "u \<in> fst ` set (adj G)" and v: "v \<in> fst ` set (adj G)"
  shows "graph_inv (link u v attr G)"
proof -
  let ?G' = "link u v attr G"
  have keys: "map fst (adj ?G') = map fst (adj G)"
    by (rule keys_adj_link [OF u v])
  then have "set (map fst (adj ?G')) = set (map fst (adj G))" by simp
  then have keyset: "fst ` set (adj ?G') = fst ` set (adj G)" by simp
  have mu: "map_of (adj G) u = Some (dict_get (adj G) u [])"
    and mv: "map_of (adj G) v = Some (dict_get (adj G) v [])"
    using u v by (auto intro: map_of_dict_get)
  have old: "distinct (map fst (dict_get (adj G) w [])) \<and> fst ` set (dict_get (adj G) w []) \<subseteq> fst ` set (adj G)"
    for w
  proof (cases "map_of (adj G) w")
    case None
    then show ?thesis by (simp add: dict_get_def)
  next
    case (Some d)
    then show ?thesis
      using graph_inv_nbrs [OF inv Some] graph_inv_closed [OF inv Some] by (simp add: dict_get_def)
  qed
  show ?thesis
    unfolding graph_inv_def
  proof (intro conjI allI impI)
    show "distinct (map fst (node ?G'))"
      using graph_inv_node [OF inv] by (simp add: node_link)
    show "distinct (map fst (adj ?G'))"
      using graph_inv_adj [OF inv] by (simp add: keys)
    show "fst ` set (node ?G') = fst ` set (adj ?G')"
      using graph_inv_keys [OF inv] by (simp add: node_link keyset)
    show "edge_data ?G' a b = edge_data ?G' b a" for a b
      using graph_inv_sym [OF inv] by (auto simp: edge_data_link)
  next
    fix n nbrs
    assume a: "map_of (adj ?G') n = Some nbrs"
    then consider (old) "map_of (adj G) n = Some nbrs"
      | (new) w k d where "nbrs = dict_set (dict_get (adj G) w []) k d" "k = u \<or> k = v"
      | (loop) d d' where "nbrs = dict_set (dict_set (dict_get (adj G) u []) u d) u d'" "v = u"
      by (auto simp: map_of_adj_link Let_def split: if_splits)
    note cases = this
    show "distinct (map fst nbrs)"
    proof (cases rule: cases)
      case old then show ?thesis by (rule graph_inv_nbrs [OF inv])
    next
      case new then show ?thesis using old [of w] by (simp add: distinct_dict_set)
    next
      case loop then show ?thesis using old [of u] by (simp add: distinct_dict_set)
    qed
    have "fst ` set nbrs \<subseteq> fst ` set (adj G)"
    proof (cases rule: cases)
      case old then show ?thesis by (rule graph_inv_closed [OF inv])
    next
      case new then show ?thesis using old [of w] u v by (auto simp: keys_dict_set)
    next
      case loop then show ?thesis using old [of u] u v by (auto simp: keys_dict_set)
    qed
    then show "fst ` set nbrs \<subseteq> fst ` set (adj ?G')"
      by (simp add: keyset)
  qed
qed

lemma node_degree_dict_set:
  assumes "distinct (map fst d)"
  shows "node_degree (n, dict_set d k a) =
         node_degree (n, d) + (if dict_contains d k then 0 else if k = n then 2 else 1)"
  by (auto simp: node_degree_def length_dict_set dict_contains_dict_set)

lemma sum_degree_link:
  assumes inv: "graph_inv G" and u: "u \<in> fst ` set (adj G)" and v: "v \<in> fst ` set (adj G)"
  shows "sum_list (map node_degree (adj (link u v attr G))) =
         sum_list (map node_degree (adj G)) + (if has_edge G u v then 0 else 2)"
proof -
  define nu where "nu = dict_get (adj G) u []"
  define nv where "nv = dict_get (adj G) v []"
  define dd where "dd = dict_update (dict_get nu v []) attr"
  define adj1 where "adj1 = dict_set (adj G) u (dict_set nu v dd)"
  have mu: "map_of (adj G) u = Some nu" and mv: "map_of (adj G) v = Some nv"
    using u v by (auto simp: nu_def nv_def intro: map_of_dict_get)
  have dnu: "distinct (map fst nu)" and dnv: "distinct (map fst nv)"
    using graph_inv_nbrs [OF inv mu] graph_inv_nbrs [OF inv mv] by auto
  have dA: "distinct (map fst (adj G))" by (rule graph_inv_adj [OF inv])
  have d1: "distinct (map fst adj1)" using dA by (simp add: adj1_def distinct_dict_set)
  have adj': "adj (link u v attr G) = dict_set adj1 v (dict_set (dict_get adj1 v []) u dd)"
    by (simp add: link_def Let_def adj1_def nu_def dd_def)
  have he_u: "has_edge G u v \<longleftrightarrow> dict_contains nu v"
    by (simp add: has_edge_def mu)
  have he_v: "has_edge G u v \<longleftrightarrow> dict_contains nv u"
    using graph_inv_sym [OF inv, of u v]
    by (simp add: has_edge_edge_data) (simp add: edge_data_def mv dict_contains_map_of)
  have s1: "sum_list (map node_degree adj1) =
            sum_list (map node_degree (adj G)) + (if dict_contains nu v then 0 else if v = u then 2 else 1)"
    unfolding adj1_def by (simp add: sum_dict_set [OF dA] mu node_degree_dict_set [OF dnu])
  show ?thesis
  proof (cases "v = u")
    case True
    have g: "dict_get adj1 v [] = dict_set nu v dd"
      by (simp add: adj1_def dict_get_dict_set True)
    have "map_of adj1 v = Some (dict_set nu v dd)"
      by (simp add: adj1_def map_of_dict_set True)
    moreover have "dict_set (dict_set nu v dd) u dd = dict_set nu v dd"
      by (simp add: True dict_set_def)
    ultimately have "sum_list (map node_degree (adj (link u v attr G))) = sum_list (map node_degree adj1)"
      unfolding adj' g by (simp add: sum_dict_set [OF d1])
    with s1 True he_u show ?thesis by simp
  next
    case False
    have g: "dict_get adj1 v [] = nv"
      using False by (simp add: adj1_def dict_get_dict_set nv_def)
    have m: "map_of adj1 v = Some nv"
      using False mv by (simp add: adj1_def map_of_dict_set)
    have "sum_list (map node_degree (adj (link u v attr G))) =
          sum_list (map node_degree adj1) + (if dict_contains nv u then 0 else 1)"
      unfolding adj' g using False
      by (simp add: sum_dict_set [OF d1] m node_degree_dict_set [OF dnv])
    with s1 False he_u he_v show ?thesis by simp
  qed
qed

lemma add_relationship_endpoints:
  "add_relationship rel G =
     (case endpoints rel of None \<Rightarrow> G | Some (s, t) \<Rightarrow> add_edge s t (edge_attrs (label_of rel)) G)"
  by (simp add: add_relationship_def endpoints_def label_of_def edge_attrs_def truthy_def Let_def
           split: option.splits)

lemma ensured:
  assumes "graph_inv G"
  shows "graph_inv (ensure_node v (ensure_node u G))"
    and "u \<in> fst ` set (adj (ensure_node v (ensure_node u G)))"
    and "v \<in> fst ` set (adj (ensure_node v (ensure_node u G)))"
    and "edge_data (ensure_node v (ensure_node u G)) = edge_data G"
    and "sum_degrees (ensure_node v (ensure_node u G)) = sum_degrees G"
proof -
  let ?G1 = "ensure_node u G" and ?G2 = "ensure_node v (ensure_node u G)"
  have i1: "graph_inv ?G1" by (rule graph_inv_ensure_node [OF assms])
  show i2: "graph_inv ?G2" by (rule graph_inv_ensure_node [OF i1])
  have "set (nodes ?G2) = insert v (insert u (set (nodes G)))"
    by (simp add: nodes_ensure_node)
  then have "fst ` set (node ?G2) = insert v (insert u (fst ` set (node G)))"
    by (simp add: nodes_def)
  then show "u \<in> fst ` set (adj ?G2)" and "v \<in> fst ` set (adj ?G2)"
    using graph_inv_keys [OF i2] by auto
  show "edge_data ?G2 = edge_data G"
    using edge_data_ensure_node [OF graph_inv_keys [OF i1], of v]
      edge_data_ensure_node [OF graph_inv_keys [OF assms], of u]
    by (simp add: fun_eq_iff)
  show "sum_degrees ?G2 = sum_degrees G"
    by (simp add: sum_degrees_def sum_degree_ensure_node [OF i1] sum_degree_ensure_node [OF assms])
qed

lemma nodes_add_edge: "set (nodes (add_edge u v a G)) = insert u (insert v (set (nodes G)))"
proof -
  have "set (nodes (add_edge u v a G)) = set (nodes (ensure_node v (ensure_node u G)))"
    by (simp add: add_edge_link nodes_def node_link)
  then show ?thesis by (auto simp: nodes_ensure_node)
qed

lemma graph_inv_add_edge: "graph_inv G \<Longrightarrow> graph_inv (add_edge u v a G)"
  unfolding add_edge_link by (intro graph_inv_link ensured)

lemma edge_data_add_edge:
  assumes "graph_inv G"
  shows "edge_data (add_edge u v a G) x y =
     (if (x = u \<and> y = v) \<or> (x = v \<and> y = u)
      then Some (dict_update (case edge_data G u v of None \<Rightarrow> [] | Some d \<Rightarrow> d) a)
      else edge_data G x y)"
  unfolding add_edge_link edge_data_link ensured(4) [OF assms] by simp

lemma has_edge_cong: "edge_data G = edge_data H \<Longrightarrow> has_edge G = has_edge H"
  by (simp add: has_edge_edge_data fun_eq_iff)

lemma sum_degrees_add_edge:
  assumes "graph_inv G"
  shows "sum_degrees (add_edge u v a G) = sum_degrees G + (if has_edge G u v then 0 else 2)"
  unfolding add_edge_link sum_degrees_def
  using sum_degree_link [OF ensured(1-3) [OF assms], of u v a]
    ensured(5) [OF assms, of v u] has_edge_cong [OF ensured(4) [OF assms, of v u]]
  by (simp add: sum_degrees_def)

lemma has_edge_add_edge:
  assumes "graph_inv G"
  shows "has_edge (add_edge u v a G) x y \<longleftrightarrow> (x = u \<and> y = v) \<or> (x = v \<and> y = u) \<or> has_edge G x y"
  by (auto simp: has_edge_edge_data edge_data_add_edge [OF assms])

lemma edge_label_add_edge:
  assumes "graph_inv G"
  shows "edge_label (add_edge u v (edge_attrs r) G) x y =
     (if (x = u \<and> y = v) \<or> (x = v \<and> y = u) then Some (PyStr r) else edge_label G x y)"
  by (simp add: edge_label_def edge_data_add_edge [OF assms] dict_update_def edge_attrs_def
        map_of_dict_set)

lemma graph_inv_add_relationship: "graph_inv G \<Longrightarrow> graph_inv (add_relationship rel G)"
  by (auto simp: add_relationship_endpoints graph_inv_add_edge split: option.splits)

lemma graph_inv_add_concept: "graph_inv G \<Longrightarrow> graph_inv (add_concept c G)"
  by (simp add: add_concept_def graph_inv_add_node)

lemma graph_inv_fold_concepts: "graph_inv G \<Longrightarrow> graph_inv (fold add_concept cs G)"
  by (induction cs arbitrary: G) (simp_all add: graph_inv_add_concept)

lemma graph_inv_fold_relationships: "graph_inv G \<Longrightarrow> graph_inv (fold add_relationship rs G)"
  by (induction rs arbitrary: G) (simp_all add: graph_inv_add_relationship)

lemma graph_inv_build_structure: "graph_inv (build_structure data)"
  unfolding build_structure_def
  by (intro graph_inv_fold_relationships graph_inv_fold_concepts graph_inv_empty)

lemma nodes_fold_concepts: "set (nodes (fold add_concept cs G)) = set (nodes G) \<union> set cs"
  by (induction cs arbitrary: G) (auto simp: add_concept_def nodes_add_node)

lemma nodes_add_relationship:
  "set (nodes (add_relationship rel G)) =
     set (nodes G) \<union> (case endpoints rel of None \<Rightarrow> {} | Some (s, t) \<Rightarrow> {s, t})"
  by (auto simp: add_relationship_endpoints nodes_add_edge split: option.splits)

lemma nodes_fold_relationships:
  "set (nodes (fold add_relationship rs G)) =
     set (nodes G) \<union> (\<Union>rel \<in> set rs. case endpoints rel of None \<Rightarrow> {} | Some (s, t) \<Rightarrow> {s, t})"
  by (induction rs arbitrary: G) (auto simp: nodes_add_relationship)

lemma edge_data_add_concept:
  "graph_inv G \<Longrightarrow> edge_data (add_concept c G) x y = edge_data G x y"
  by (simp add: add_concept_def edge_data_add_node)

lemma sum_degrees_add_concept:
  "graph_inv G \<Longrightarrow> sum_degrees (add_concept c G) = sum_degrees G"
  by (simp add: add_concept_def sum_degree_add_node sum_degrees_def)

lemma edge_data_fold_concepts:
  "graph_inv G \<Longrightarrow> edge_data (fold add_concept cs G) x y = edge_data G x y"
  by (induction cs arbitrary: G) (simp_all add: graph_inv_add_concept edge_data_add_concept)

lemma sum_degrees_fold_concepts:
  "graph_inv G \<Longrightarrow> sum_degrees (fold add_concept cs G) = sum_degrees G"
  by (induction cs arbitrary: G) (simp_all add: graph_inv_add_concept sum_degrees_add_concept)

lemma has_edge_add_relationship:
  assumes "graph_inv G"
  shows "has_edge (add_relationship rel G) x y \<longleftrightarrow> joins rel x y \<or> has_edge G x y"
  by (auto simp: add_relationship_endpoints has_edge_add_edge [OF assms] joins_def split: option.splits)

lemma has_edge_fold_relationships:
  "graph_inv G \<Longrightarrow>
   has_edge (fold add_relationship rs G) x y \<longleftrightarrow> (\<exists>rel \<in> set rs. joins rel x y) \<or> has_edge G x y"
  by (induction rs arbitrary: G)
     (auto simp: graph_inv_add_relationship has_edge_add_relationship)

lemma edge_label_add_relationship:
  assumes "graph_inv G"
  shows "edge_label (add_relationship rel G) x y =
           (if joins rel x y then Some (PyStr (label_of rel)) else edge_label G x y)"
  by (auto simp: add_relationship_endpoints edge_label_add_edge [OF assms] joins_def split: option.splits)

lemma edge_label_fold_relationships:
  assumes "graph_inv G"
  shows "edge_label (fold add_relationship rs G) x y =
           (case find (\<lambda>rel. joins rel x y) (rev rs) of
              None \<Rightarrow> edge_label G x y
            | Some rel \<Rightarrow> Some (PyStr (label_of rel)))"
proof (induction rs rule: rev_induct)
  case Nil
  then show ?case by simp
next
  case (snoc rel rs)
  have "graph_inv (fold add_relationship rs G)"
    by (rule graph_inv_fold_relationships [OF assms])
  then show ?case
    using snoc by (simp add: edge_label_add_relationship)
qed

lemma sum_degrees_add_relationship:
  assumes "graph_inv G"
  shows "sum_degrees (add_relationship rel G) = sum_degrees G \<or>
         sum_degrees (add_relationship rel G) = sum_degrees G + 2"
  by (auto simp: add_relationship_endpoints sum_degrees_add_edge [OF assms] split: option.splits)

lemma sum_degrees_fold_relationships:
  assumes "graph_inv G"
  shows "even (sum_degrees (fold add_relationship rs G) - sum_degrees G) \<and>
         sum_degrees (fold add_relationship rs G) \<le> sum_degrees G + 2 * int (length rs)"
proof (induction rs rule: rev_induct)
  case Nil
  then show ?case by simp
next
  case (snoc rel rs)
  have "graph_inv (fold add_relationship rs G)"
    by (rule graph_inv_fold_relationships [OF assms])
  from sum_degrees_add_relationship [OF this, of rel] snoc show ?case
    by auto
qed

lemma sum_degrees_build_structure:
  "even (sum_degrees (build_structure data))"
  "sum_degrees (build_structure data) \<le> 2 * int (length (get_relationships data))"
proof -
  have e: "sum_degrees empty_graph = 0" by (simp add: sum_degrees_def empty_graph_def)
  have i: "graph_inv (fold add_concept (get_concepts data) empty_graph)"
    by (rule graph_inv_fold_concepts [OF graph_inv_empty])
  have z: "sum_degrees (fold add_concept (get_concepts data) empty_graph) = 0"
    by (simp add: sum_degrees_fold_concepts [OF graph_inv_empty] e)
  from sum_degrees_fold_relationships [OF i, of "get_relationships data"] z
  show "even (sum_degrees (build_structure data))"
    and "sum_degrees (build_structure data) \<le> 2 * int (length (get_relationships data))"
    by (simp_all add: build_structure_def)
qed

lemma adj_set_node_attr: "adj (set_node_attr n k v G) = adj G"
  by (simp add: set_node_attr_def)

lemma keys_set_node_attr:
  "n \<in> fst ` set (node G) \<Longrightarrow> map fst (node (set_node_attr n k v G)) = map fst (node G)"
  by (simp add: set_node_attr_def keys_list_dict_set)

lemma keyset_set_node_attr:
  "n \<in> fst ` set (node G) \<Longrightarrow> fst ` set (node (set_node_attr n k v G)) = fst ` set (node G)"
  by (auto simp: set_node_attr_def keys_dict_set)

lemma node_attr_set_node_attr:
  "node_attr (set_node_attr n k v G) m key =
     (if m = n then (if key = k then Some v else node_attr G n key) else node_attr G m key)"
  by (simp add: node_attr_def set_node_attr_def map_of_dict_set dict_get_def split: option.splits)

lemma adj_style_node: "adj (style_node dg nc n G) = adj G"
  by (simp add: style_node_def Let_def adj_set_node_attr)

lemma keys_style_node:
  "n \<in> fst ` set (node G) \<Longrightarrow> map fst (node (style_node dg nc n G)) = map fst (node G)"
  by (simp add: style_node_def Let_def keys_set_node_attr keyset_set_node_attr)

lemma node_attr_style_node:
  "node_attr (style_node dg nc n G) m key =
     (if m = n then
        (if key = ''font'' then Some font
         else if key = ''color'' then Some (PyStr (dict_get nc n default_color))
         else if key = ''size'' then Some (PyInt (20 + dict_get dg n 0 * 5))
         else node_attr G n key)
      else node_attr G m key)"
  by (simp add: style_node_def Let_def node_attr_set_node_attr)

lemma adj_fold_style: "adj (fold (style_node dg nc) xs G) = adj G"
  by (induction xs arbitrary: G) (simp_all add: adj_style_node)

lemma keys_fold_style:
  "set xs \<subseteq> fst ` set (node G) \<Longrightarrow> map fst (node (fold (style_node dg nc) xs G)) = map fst (node G)"
proof (induction xs arbitrary: G)
  case Nil
  then show ?case by simp
next
  case (Cons x xs)
  then have x: "x \<in> fst ` set (node G)" by simp
  have k: "map fst (node (style_node dg nc x G)) = map fst (node G)"
    by (rule keys_style_node [OF x])
  then have "set (map fst (node (style_node dg nc x G))) = set (map fst (node G))" by simp
  then have "fst ` set (node (style_node dg nc x G)) = fst ` set (node G)" by simp
  with Cons.prems have "set xs \<subseteq> fst ` set (node (style_node dg nc x G))" by simp
  from Cons.IH [OF this] k show ?case by simp
qed

lemma node_attr_fold_style:
  assumes "n \<in> set xs" and "key = ''font'' \<or> key = ''color'' \<or> key = ''size''"
  shows "node_attr (fold (style_node dg nc) xs G) n key =
     (if key = ''font'' then Some font
      else if key = ''color'' then Some (PyStr (dict_get nc n default_color))
      else Some (PyInt (20 + dict_get dg n 0 * 5)))"
  using assms
proof (induction xs arbitrary: G rule: rev_induct)
  case Nil
  then show ?case by simp
next
  case (snoc x xs)
  then show ?case
    by (cases "n = x") (auto simp: node_attr_style_node)
qed

lemma node_attr_fold_style_other:
  assumes "key \<noteq> ''font''" and "key \<noteq> ''color''" and "key \<noteq> ''size''"
  shows "node_attr (fold (style_node dg nc) xs G) n key = node_attr G n key"
  using assms
  by (induction xs arbitrary: G rule: rev_induct) (auto simp: node_attr_style_node)

lemma create_networkx_graph_fold:
  "create_networkx_graph community data =
     fold (style_node (degree (build_structure data)) (node_colors_of community (build_structure data)))
       (nodes (build_structure data)) (build_structure data)"
  by (simp add: create_networkx_graph_def node_colors_of_def Let_def)

lemma adj_create: "adj (create_networkx_graph community data) = adj (build_structure data)"
  by (simp add: create_networkx_graph_fold adj_fold_style)

lemma keys_create: "map fst (node (create_networkx_graph community data)) = map fst (node (build_structure data))"
  unfolding create_networkx_graph_fold
  by (rule keys_fold_style) (simp add: nodes_def)

lemma nodes_create: "nodes (create_networkx_graph community data) = nodes (build_structure data)"
  by (simp add: nodes_def keys_create)

lemma graph_inv_create: "graph_inv (create_networkx_graph community data)"
  using graph_inv_cong [OF keys_create adj_create] graph_inv_build_structure by simp

lemma edge_data_create: "edge_data (create_networkx_graph community data) = edge_data (build_structure data)"
  by (rule edge_data_cong [OF adj_create])

lemma has_edge_create: "has_edge (create_networkx_graph community data) = has_edge (build_structure data)"
  by (rule has_edge_cong [OF edge_data_create])

lemma edge_label_create:
  "edge_label (create_networkx_graph community data) = edge_label (build_structure data)"
  by (simp add: edge_label_def fun_eq_iff edge_data_create)

lemma degree_create: "degree (create_networkx_graph community data) = degree (build_structure data)"
  by (simp add: degree_def adj_create)

lemma number_of_edges_create:
  "number_of_edges (create_networkx_graph community data) = number_of_edges (build_structure data)"
  by (simp add: number_of_edges_def adj_create)

lemma number_of_nodes_create:
  "number_of_nodes (create_networkx_graph community data) = number_of_nodes (build_structure data)"
  using arg_cong [OF keys_create, of length] by (simp add: number_of_nodes_def)

section \<open>The built graph\<close>

lemmas build_eval =
  build_structure_def get_concepts_def get_relationships_def add_concept_def add_relationship_def
  add_node_def add_edge_def ensure_node_def empty_graph_def truthy_def
  dict_contains_def dict_get_def dict_set_def dict_update_def Let_def

lemma endpoints_SomeI:
  "source rel = Some s \<Longrightarrow> target rel = Some t \<Longrightarrow> s \<noteq> [] \<Longrightarrow> t \<noteq> [] \<Longrightarrow> endpoints rel = Some (s, t)"
  by (simp add: endpoints_def)

lemma has_edge_build_structure:
  "has_edge (build_structure data) x y \<longleftrightarrow> (\<exists>rel \<in> set (get_relationships data). joins rel x y)"
proof -
  let ?G0 = "fold add_concept (get_concepts data) empty_graph"
  have i: "graph_inv ?G0" by (rule graph_inv_fold_concepts [OF graph_inv_empty])
  have "edge_data ?G0 x y = None"
    by (simp add: edge_data_fold_concepts [OF graph_inv_empty]) (simp add: edge_data_def empty_graph_def)
  then have "\<not> has_edge ?G0 x y" by (simp add: has_edge_edge_data)
  then show ?thesis
    by (simp add: build_structure_def has_edge_fold_relationships [OF i])
qed

lemma nodes_build_structure:
  "set (nodes (build_structure data)) = set (get_concepts data) \<union> linked_nodes (get_relationships data)"
proof -
  have "set (nodes empty_graph) = {}" by (simp add: nodes_def empty_graph_def)
  then show ?thesis
    by (simp add: build_structure_def nodes_fold_relationships nodes_fold_concepts linked_nodes_def)
qed

lemma find_append_none: "\<forall>x \<in> set xs. \<not> P x \<Longrightarrow> find P (xs @ ys) = find P ys"
  by (induction xs) simp_all

lemma find_last:
  assumes "rs = before @ rel # after" and "P rel" and "\<forall>r \<in> set after. \<not> P r"
  shows "find P (rev rs) = Some rel"
  using assms find_append_none [of "rev after" P "rel # rev before"] by simp

lemma edge_label_build_structure:
  "edge_label (build_structure data) x y =
     (case find (\<lambda>rel. joins rel x y) (rev (get_relationships data)) of
        None \<Rightarrow> None
      | Some rel \<Rightarrow> Some (PyStr (label_of rel)))"
proof -
  let ?G0 = "fold add_concept (get_concepts data) empty_graph"
  have i: "graph_inv ?G0" by (rule graph_inv_fold_concepts [OF graph_inv_empty])
  have "edge_data ?G0 x y = None"
    by (simp add: edge_data_fold_concepts [OF graph_inv_empty]) (simp add: edge_data_def empty_graph_def)
  then have "edge_label ?G0 x y = None" by (simp add: edge_label_def)
  then show ?thesis
    by (simp add: build_structure_def edge_label_fold_relationships [OF i] split: option.splits)
qed

lemma edge_label_last:
  assumes "get_relationships data = before @ rel # after"
    and "joins rel x y" and "\<forall>r \<in> set after. \<not> joins r x y"
  shows "edge_label (create_networkx_graph community data) x y = Some (PyStr (label_of rel))"
  using find_last [OF assms(1), of "\<lambda>r. joins r x y", OF assms(2,3)]
  by (simp add: edge_label_create edge_label_build_structure)

lemma edge_label_add_edge_self:
  "edge_label (add_edge u v (edge_attrs r) G) u v = Some (PyStr r)"
  by (simp add: edge_label_def add_edge_link edge_data_link dict_update_def edge_attrs_def
        map_of_dict_set)

lemma edge_set_iff:
  assumes "graph_inv G"
  shows "e \<in> edge_set G \<longleftrightarrow> (\<exists>u v. e = {u, v} \<and> has_edge G u v)"
proof -
  have d: "distinct (map fst (adj G))" by (rule graph_inv_adj [OF assms])
  have m: "\<And>u nbrs. (u, nbrs) \<in> set (adj G) \<longleftrightarrow> map_of (adj G) u = Some nbrs"
    using d by simp
  show ?thesis
  proof
    assume "e \<in> edge_set G"
    then obtain p q where p: "p \<in> set (adj G)" and q: "q \<in> set (snd p)" and e: "e = {fst p, fst q}"
      by (auto simp: edge_set_def)
    from p have "map_of (adj G) (fst p) = Some (snd p)" using m [of "fst p" "snd p"] by simp
    with q have "has_edge G (fst p) (fst q)"
      by (simp add: has_edge_def dict_contains_def)
    with e show "\<exists>u v. e = {u, v} \<and> has_edge G u v" by blast
  next
    assume "\<exists>u v. e = {u, v} \<and> has_edge G u v"
    then obtain u v where e: "e = {u, v}" and h: "has_edge G u v" by blast
    from h obtain nbrs where n: "map_of (adj G) u = Some nbrs" and "dict_contains nbrs v"
      by (auto simp: has_edge_def split: option.splits)
    then obtain a where "(v, a) \<in> set nbrs" by (auto simp: dict_contains_def)
    moreover from n have "(u, nbrs) \<in> set (adj G)" by (simp add: m)
    ultimately show "e \<in> edge_set G"
      unfolding edge_set_def e by force
  qed
qed

lemma finite_edge_set: "finite (edge_set G)"
  by (simp add: edge_set_def)

lemma has_edge_sym: "graph_inv G \<Longrightarrow> has_edge G u v = has_edge G v u"
  by (simp add: has_edge_edge_data graph_inv_sym)

lemma pair_in_edge_set:
  assumes "graph_inv G"
  shows "{u, v} \<in> edge_set G \<longleftrightarrow> has_edge G u v"
proof
  assume "{u, v} \<in> edge_set G"
  then obtain a b where "{u, v} = {a, b}" and h: "has_edge G a b"
    by (auto simp: edge_set_iff [OF assms])
  then have "(u = a \<and> v = b) \<or> (u = b \<and> v = a)" by (auto simp: doubleton_eq_iff)
  with h has_edge_sym [OF assms, of a b] show "has_edge G u v" by auto
next
  assume "has_edge G u v"
  then show "{u, v} \<in> edge_set G" by (auto simp: edge_set_iff [OF assms])
qed

lemma edge_set_add_edge:
  assumes "graph_inv G"
  shows "edge_set (add_edge u v a G) = insert {u, v} (edge_set G)"
proof -
  have i: "graph_inv (add_edge u v a G)" by (rule graph_inv_add_edge [OF assms])
  show ?thesis
  proof (rule set_eqI)
    fix e
    show "e \<in> edge_set (add_edge u v a G) \<longleftrightarrow> e \<in> insert {u, v} (edge_set G)"
      unfolding edge_set_iff [OF i] has_edge_add_edge [OF assms] insert_iff edge_set_iff [OF assms]
      by (auto simp: doubleton_eq_iff)
  qed
qed

lemma edge_set_add_node:
  assumes "graph_inv G"
  shows "edge_set (add_node n a G) = edge_set G"
proof -
  have i: "graph_inv (add_node n a G)" by (rule graph_inv_add_node [OF assms])
  have h: "\<And>x y. has_edge (add_node n a G) x y = has_edge G x y"
    by (simp add: has_edge_edge_data edge_data_add_node [OF assms])
  show ?thesis
    by (rule set_eqI) (simp add: edge_set_iff [OF i] edge_set_iff [OF assms] h)
qed


lemma handshake_empty: "handshake empty_graph"
  by (simp add: handshake_def graph_inv_empty) (simp add: sum_degrees_def edge_set_def empty_graph_def)

lemma handshake_add_concept: "handshake G \<Longrightarrow> handshake (add_concept c G)"
  by (simp add: handshake_def graph_inv_add_concept sum_degrees_add_concept)
     (simp add: add_concept_def edge_set_add_node)

lemma handshake_add_edge:
  assumes "handshake G"
  shows "handshake (add_edge u v a G)"
proof -
  from assms have i: "graph_inv G" and s: "sum_degrees G = 2 * int (card (edge_set G))"
    by (simp_all add: handshake_def)
  have "card (edge_set (add_edge u v a G)) =
        (if has_edge G u v then card (edge_set G) else Suc (card (edge_set G)))"
    by (simp add: edge_set_add_edge [OF i] card_insert_if finite_edge_set pair_in_edge_set [OF i])
  then show ?thesis
    by (simp add: handshake_def graph_inv_add_edge [OF i] sum_degrees_add_edge [OF i] s)
qed

lemma handshake_add_relationship: "handshake G \<Longrightarrow> handshake (add_relationship rel G)"
  by (auto simp: add_relationship_endpoints handshake_add_edge split: option.splits)

lemma handshake_build_structure: "handshake (build_structure data)"
proof -
  have c: "handshake (fold add_concept cs G)" if "handshake G" for cs G
    using that by (induction cs arbitrary: G) (simp_all add: handshake_add_concept)
  have r: "handshake (fold add_relationship rs G)" if "handshake G" for rs G
    using that by (induction rs arbitrary: G) (simp_all add: handshake_add_relationship)
  show ?thesis
    unfolding build_structure_def by (intro r c handshake_empty)
qed

lemma edge_set_cong: "adj G = adj H \<Longrightarrow> edge_set G = edge_set H"
  by (simp add: edge_set_def)

lemma sum_degrees_create:
  "sum_degrees (create_networkx_graph community data) = 2 * int (card (edge_set (create_networkx_graph community data)))"
  using handshake_build_structure [of data] edge_set_cong [OF adj_create, of community data]
  by (simp add: handshake_def sum_degrees_def adj_create)

lemma number_of_edges_card:
  "number_of_edges (create_networkx_graph community data) =
     int (card (edge_set (create_networkx_graph community data)))"
  using sum_degrees_create [of community data]
  by (simp add: number_of_edges_def sum_degrees_def)

lemma number_of_edges_le:
  "number_of_edges (create_networkx_graph community data) \<le> int (length (get_relationships data))"
proof -
  have "sum_list (map node_degree (adj (build_structure data))) \<le> 2 * int (length (get_relationships data))"
    using sum_degrees_build_structure(2) [of data] by (simp add: sum_degrees_def)
  then show ?thesis
    unfolding number_of_edges_def adj_create by linarith
qed

lemma edge_set_create:
  "edge_set (create_networkx_graph community data) =
     {{s, t} | s t. \<exists>rel \<in> set (get_relationships data). endpoints rel = Some (s, t)}"
proof (rule set_eqI)
  fix e
  have "e \<in> edge_set (create_networkx_graph community data) \<longleftrightarrow>
        (\<exists>u v. e = {u, v} \<and> (\<exists>rel \<in> set (get_relationships data). joins rel u v))"
    by (simp add: edge_set_iff [OF graph_inv_create] has_edge_create has_edge_build_structure)
  also have "\<dots> \<longleftrightarrow> e \<in> {{s, t} | s t. \<exists>rel \<in> set (get_relationships data). endpoints rel = Some (s, t)}"
    by (auto simp: joins_def doubleton_eq_iff)
  finally show "e \<in> edge_set (create_networkx_graph community data) \<longleftrightarrow>
    e \<in> {{s, t} | s t. \<exists>rel \<in> set (get_relationships data). endpoints rel = Some (s, t)}" .
qed

lemma edge_label_in_edge_labels:
  assumes "edge_label G x y = Some l"
  shows "Some l \<in> set (edge_labels G)"
proof -
  from assms obtain nbrs d where n: "map_of (adj G) x = Some nbrs" and d: "map_of nbrs y = Some d"
    and l: "map_of d ''label'' = Some l"
    by (auto simp: edge_label_def edge_data_def split: option.splits)
  from n have "(x, nbrs) \<in> set (adj G)" by (rule map_of_SomeD)
  moreover from d have "(y, d) \<in> set nbrs" by (rule map_of_SomeD)
  ultimately show ?thesis
    unfolding edge_labels_def using l by force
qed

lemma edge_labels_create:
  "edge_labels (create_networkx_graph community data) = edge_labels (build_structure data)"
  by (simp add: edge_labels_def adj_create)

lemma map_of_degree:
  "map_of (degree G) n = map_option (\<lambda>nbrs. node_degree (n, nbrs)) (map_of (adj G) n)"
proof -
  have "map_of (map (\<lambda>p. (fst p, node_degree p)) d) n =
        map_option (\<lambda>nbrs. node_degree (n, nbrs)) (map_of d n)" for d :: "(string, (string, attrs) dict) dict"
    by (induction d) auto
  then show ?thesis by (simp add: degree_def)
qed

lemma node_has_nbrs:
  assumes "graph_inv G" and "n \<in> set (nodes G)"
  obtains nbrs where "map_of (adj G) n = Some nbrs"
proof -
  from assms have "n \<in> fst ` set (adj G)"
    using graph_inv_keys [OF assms(1)] by (simp add: nodes_def)
  then have "map_of (adj G) n \<noteq> None" by (simp add: map_of_eq_None_iff)
  then show ?thesis using that by blast
qed

lemma degree_of_node:
  assumes "map_of (adj G) n = Some nbrs"
  shows "dict_get (degree G) n 0 = int (length nbrs) + (if has_edge G n n then 1 else 0)"
  using assms by (simp add: dict_get_def map_of_degree node_degree_def has_edge_def)

lemma incident_edges:
  assumes inv: "graph_inv G" and n: "map_of (adj G) n = Some nbrs"
  shows "{e \<in> edge_set G. n \<in> e} = (\<lambda>v. {n, v}) ` fst ` set nbrs"
proof (rule set_eqI)
  fix e
  have k: "has_edge G n v \<longleftrightarrow> v \<in> fst ` set nbrs" for v
    by (simp add: has_edge_def n dict_contains_def)
  show "e \<in> {e \<in> edge_set G. n \<in> e} \<longleftrightarrow> e \<in> (\<lambda>v. {n, v}) ` fst ` set nbrs"
  proof
    assume "e \<in> {e \<in> edge_set G. n \<in> e}"
    then obtain u v where e: "e = {u, v}" and h: "has_edge G u v" and m: "n = u \<or> n = v"
      by (auto simp: edge_set_iff [OF inv])
    from m show "e \<in> (\<lambda>v. {n, v}) ` fst ` set nbrs"
    proof
      assume "n = u"
      with h e k [of v] show ?thesis by auto
    next
      assume "n = v"
      with h has_edge_sym [OF inv, of u v] have "has_edge G n u" by simp
      with k [of u] have "u \<in> fst ` set nbrs" by simp
      moreover from e \<open>n = v\<close> have "e = {n, u}" by auto
      ultimately show ?thesis by blast
    qed
  next
    assume "e \<in> (\<lambda>v. {n, v}) ` fst ` set nbrs"
    then obtain v where "v \<in> fst ` set nbrs" and e: "e = {n, v}" by blast
    with k [of v] have "has_edge G n v" by simp
    with e show "e \<in> {e \<in> edge_set G. n \<in> e}"
      by (auto simp: edge_set_iff [OF inv])
  qed
qed

lemma card_incident_edges:
  assumes inv: "graph_inv G" and n: "map_of (adj G) n = Some nbrs"
  shows "card {e \<in> edge_set G. n \<in> e} = length nbrs"
proof -
  have "inj (\<lambda>v. {n, v})"
    by (rule injI) (auto simp: doubleton_eq_iff)
  then have "card ((\<lambda>v. {n, v}) ` fst ` set nbrs) = card (fst ` set nbrs)"
    by (intro card_image) (auto intro: inj_on_subset)
  also have "\<dots> = card (set (map fst nbrs))" by simp
  also have "\<dots> = length nbrs"
    using distinct_card [OF graph_inv_nbrs [OF inv n]] by simp
  finally show ?thesis by (simp add: incident_edges [OF inv n])
qed

lemma sum_degree_values: "sum_list (map snd (degree G)) = sum_degrees G"
  by (simp add: degree_def sum_degrees_def comp_def)

lemma isolated_degree:
  assumes "map_of (adj G) n = Some nbrs" and "\<forall>v. \<not> has_edge G n v"
  shows "dict_get (degree G) n 0 = 0"
proof -
  from assms have "fst ` set nbrs = {}" by (auto simp: has_edge_def dict_contains_def)
  then have "nbrs = []" by simp
  with assms(1) show ?thesis by (simp add: degree_of_node [OF assms(1)] has_edge_def dict_contains_def)
qed

lemma size_create:
  assumes "n \<in> set (nodes (create_networkx_graph community data))"
  shows "node_attr (create_networkx_graph community data) n ''size'' =
           Some (PyInt (20 + dict_get (degree (create_networkx_graph community data)) n 0 * 5))"
proof -
  from assms have "n \<in> set (nodes (build_structure data))" by (simp add: nodes_create)
  then show ?thesis
    unfolding degree_create
    unfolding create_networkx_graph_fold
    by (simp add: node_attr_fold_style)
qed







lemma extract_failure:
  assumes "chat_completion key text = Inl e \<or>
           (chat_completion key text = Inr content \<and> json_loads content = Inl e)"
  shows "extract_knowledge_graph chat_completion json_loads text key w =
           (None, w\<lparr>api_calls := Suc (api_calls w),
                    ui := ui w @ [St_error (''Error calling Groq API: '' @ e)]\<rparr>)"
  using assms by (auto simp: extract_knowledge_graph_def show_event_def Let_def)



section \<open>The claims\<close>

text \<open>
  Claim C1 as stated fails: the node set is not the union of the declared concepts and of
  every string that a relationship names as an endpoint. A relationship whose target is
  the empty string is not inserted, and its source \<open>"A"\<close> is not a node.
\<close>

theorem C1_node_set_counterexample:
  "set (nodes (create_networkx_graph no_communities
      \<lparr>concepts = Some [],
       relationships = Some [\<lparr>source = Some ''A'', target = Some [],
                               relationship = Some ''uses''\<rparr>]\<rparr>)) \<noteq>
   set (get_concepts
      \<lparr>concepts = Some [],
       relationships = Some [\<lparr>source = Some ''A'', target = Some [],
                               relationship = Some ''uses''\<rparr>]\<rparr>) \<union>
   referenced_nodes (get_relationships
      \<lparr>concepts = Some [],
       relationships = Some [\<lparr>source = Some ''A'', target = Some [],
                               relationship = Some ''uses''\<rparr>]\<rparr>)"
  by (simp add: nodes_create nodes_build_structure linked_nodes_def endpoints_def
        referenced_nodes_def get_concepts_def get_relationships_def)

text \<open>
  Claim C1, amended. For every extraction result, an absent field read as the empty
  sequence, the node set of the built graph is the union of the declared concepts and
  of the two endpoints of every relationship whose source and target are both present and
  non-empty.
\<close>

theorem C1_node_set:
  "set (nodes (create_networkx_graph community data)) =
     set (get_concepts data) \<union> linked_nodes (get_relationships data)"
  by (simp add: nodes_create nodes_build_structure)

theorem C1_node_set_witness:
  "set (nodes (create_networkx_graph no_communities
      \<lparr>concepts = None,
       relationships = Some [\<lparr>source = Some ''A'', target = Some ''C'', relationship = None\<rparr>,
                             \<lparr>source = Some ''B'', target = Some [], relationship = None\<rparr>,
                             \<lparr>source = None, target = Some ''D'', relationship = None\<rparr>]\<rparr>)) =
   {''A'', ''C''}"
  using C1_node_set [of no_communities
      "\<lparr>concepts = None,
       relationships = Some [\<lparr>source = Some ''A'', target = Some ''C'', relationship = None\<rparr>,
                             \<lparr>source = Some ''B'', target = Some [], relationship = None\<rparr>,
                             \<lparr>source = None, target = Some ''D'', relationship = None\<rparr>]\<rparr>"]
  by (simp add: linked_nodes_def endpoints_def get_concepts_def get_relationships_def)

text \<open>
  Claim C2 as stated fails: a relationship that names a target absent from the declared
  concepts is not dropped. With the concepts \<open>["A"]\<close> and a relationship from \<open>"A"\<close> to
  \<open>"C"\<close>, the edge is in the graph and \<open>"C"\<close> is a node.
\<close>

theorem C2_unknown_endpoint_counterexample:
  "''C'' \<notin> set (get_concepts
      \<lparr>concepts = Some [''A''],
       relationships = Some [\<lparr>source = Some ''A'', target = Some ''C'',
                               relationship = Some ''implies''\<rparr>]\<rparr>) \<and>
   has_edge (create_networkx_graph no_communities
      \<lparr>concepts = Some [''A''],
       relationships = Some [\<lparr>source = Some ''A'', target = Some ''C'',
                               relationship = Some ''implies''\<rparr>]\<rparr>) ''A'' ''C'' \<and>
   ''C'' \<in> set (nodes (create_networkx_graph no_communities
      \<lparr>concepts = Some [''A''],
       relationships = Some [\<lparr>source = Some ''A'', target = Some ''C'',
                               relationship = Some ''implies''\<rparr>]\<rparr>))"
  by (simp add: has_edge_create has_edge_build_structure nodes_create nodes_build_structure
        linked_nodes_def joins_def endpoints_def get_concepts_def get_relationships_def)

text \<open>
  Claim C2, amended. In the built graph both endpoints of every edge are nodes, and there
  is an edge between two nodes exactly when some relationship with a non-empty source and
  a non-empty target joins them, whether or not they are declared concepts: only a
  relationship with an empty or absent source or target is dropped.
\<close>

theorem C2_edge_endpoints:
  "(has_edge (create_networkx_graph community data) u v \<longrightarrow>
      u \<in> set (nodes (create_networkx_graph community data)) \<and>
      v \<in> set (nodes (create_networkx_graph community data))) \<and>
   (has_edge (create_networkx_graph community data) u v \<longleftrightarrow>
      (\<exists>rel \<in> set (get_relationships data). joins rel u v))"
proof (intro conjI impI)
  show "has_edge (create_networkx_graph community data) u v \<longleftrightarrow>
      (\<exists>rel \<in> set (get_relationships data). joins rel u v)"
    by (simp add: has_edge_create has_edge_build_structure)
next
  assume "has_edge (create_networkx_graph community data) u v"
  then obtain rel where r: "rel \<in> set (get_relationships data)" and j: "joins rel u v"
    by (auto simp: has_edge_create has_edge_build_structure)
  from j have "endpoints rel = Some (u, v) \<or> endpoints rel = Some (v, u)" by (simp add: joins_def)
  with r have "u \<in> linked_nodes (get_relationships data) \<and> v \<in> linked_nodes (get_relationships data)"
    by (auto simp: linked_nodes_def intro!: bexI [of _ rel])
  then show "u \<in> set (nodes (create_networkx_graph community data))"
    and "v \<in> set (nodes (create_networkx_graph community data))"
    by (simp_all add: nodes_create nodes_build_structure)
qed

theorem C2_edge_endpoints_witness:
  "has_edge (create_networkx_graph no_communities
      \<lparr>concepts = Some [''A''],
       relationships = Some [\<lparr>source = Some ''A'', target = Some ''C'',
                               relationship = Some ''implies''\<rparr>]\<rparr>) ''C'' ''A'' \<and>
   ''C'' \<in> set (nodes (create_networkx_graph no_communities
      \<lparr>concepts = Some [''A''],
       relationships = Some [\<lparr>source = Some ''A'', target = Some ''C'',
                               relationship = Some ''implies''\<rparr>]\<rparr>)) \<and>
   ''A'' \<in> set (nodes (create_networkx_graph no_communities
      \<lparr>concepts = Some [''A''],
       relationships = Some [\<lparr>source = Some ''A'', target = Some ''C'',
                               relationship = Some ''implies''\<rparr>]\<rparr>))"
  using C2_edge_endpoints [of no_communities
      "\<lparr>concepts = Some [''A''],
       relationships = Some [\<lparr>source = Some ''A'', target = Some ''C'',
                               relationship = Some ''implies''\<rparr>]\<rparr>" "''C''" "''A''"]
  by (simp add: joins_def endpoints_def get_relationships_def)

text \<open>
  Claim C3. A relationship with a non-empty source and a non-empty target is inserted as an
  edge even when its source or its target is not among the declared concepts, and both of
  its endpoints are nodes of the built graph. For the concepts \<open>["A"]\<close> and the one
  relationship from \<open>"A"\<close> to \<open>"C"\<close> labelled \<open>"implies"\<close>, the graph has exactly
  the two nodes \<open>"A"\<close> and \<open>"C"\<close> and one edge.
\<close>

theorem C3_implicit_endpoints:
  "(rel \<in> set (get_relationships data) \<and> source rel = Some s \<and> target rel = Some t \<and>
      s \<noteq> [] \<and> t \<noteq> [] \<longrightarrow>
      has_edge (create_networkx_graph community data) s t \<and>
      has_edge (create_networkx_graph community data) t s \<and>
      s \<in> set (nodes (create_networkx_graph community data)) \<and>
      t \<in> set (nodes (create_networkx_graph community data))) \<and>
   nodes (create_networkx_graph community
      \<lparr>concepts = Some [''A''],
       relationships = Some [\<lparr>source = Some ''A'', target = Some ''C'',
                               relationship = Some ''implies''\<rparr>]\<rparr>) = [''A'', ''C''] \<and>
   number_of_nodes (create_networkx_graph community
      \<lparr>concepts = Some [''A''],
       relationships = Some [\<lparr>source = Some ''A'', target = Some ''C'',
                               relationship = Some ''implies''\<rparr>]\<rparr>) = 2 \<and>
   number_of_edges (create_networkx_graph community
      \<lparr>concepts = Some [''A''],
       relationships = Some [\<lparr>source = Some ''A'', target = Some ''C'',
                               relationship = Some ''implies''\<rparr>]\<rparr>) = 1"
proof (intro conjI impI)
  assume a: "rel \<in> set (get_relationships data) \<and> source rel = Some s \<and> target rel = Some t \<and>
      s \<noteq> [] \<and> t \<noteq> []"
  then have e: "endpoints rel = Some (s, t)" by (simp add: endpoints_SomeI)
  then have j: "joins rel s t" "joins rel t s" by (simp_all add: joins_def)
  with a show "has_edge (create_networkx_graph community data) s t"
    and "has_edge (create_networkx_graph community data) t s"
    by (auto simp: has_edge_create has_edge_build_structure)
  from a e have "s \<in> linked_nodes (get_relationships data)" "t \<in> linked_nodes (get_relationships data)"
    by (auto simp: linked_nodes_def intro!: bexI [of _ rel])
  then show "s \<in> set (nodes (create_networkx_graph community data))"
    and "t \<in> set (nodes (create_networkx_graph community data))"
    by (simp_all add: nodes_create nodes_build_structure)
next
  let ?D = "\<lparr>concepts = Some [''A''],
       relationships = Some [\<lparr>source = Some ''A'', target = Some ''C'',
                               relationship = Some ''implies''\<rparr>]\<rparr>"
  have b: "build_structure ?D =
      \<lparr>node = [(''A'', [(''title'', PyStr ''A'')]), (''C'', [])],
       adj = [(''A'', [(''C'', [(''title'', PyStr ''implies''), (''label'', PyStr ''implies'')])]),
              (''C'', [(''A'', [(''title'', PyStr ''implies''), (''label'', PyStr ''implies'')])])]\<rparr>"
    by (simp add: build_eval)
  show "nodes (create_networkx_graph community ?D) = [''A'', ''C'']"
    unfolding nodes_create b by (simp add: nodes_def)
  show "number_of_nodes (create_networkx_graph community ?D) = 2"
    unfolding number_of_nodes_create b by (simp add: number_of_nodes_def)
  show "number_of_edges (create_networkx_graph community ?D) = 1"
    unfolding number_of_edges_create b
    by (simp add: number_of_edges_def node_degree_def dict_contains_def)
qed

theorem C3_implicit_endpoints_witness:
  "has_edge (create_networkx_graph no_communities
      \<lparr>concepts = Some [''A''],
       relationships = Some [\<lparr>source = Some ''A'', target = Some ''C'',
                               relationship = Some ''implies''\<rparr>]\<rparr>) ''A'' ''C'' \<and>
   ''C'' \<in> set (nodes (create_networkx_graph no_communities
      \<lparr>concepts = Some [''A''],
       relationships = Some [\<lparr>source = Some ''A'', target = Some ''C'',
                               relationship = Some ''implies''\<rparr>]\<rparr>))"
  using C3_implicit_endpoints [of "\<lparr>source = Some ''A'', target = Some ''C'', relationship = Some ''implies''\<rparr>"
      "\<lparr>concepts = Some [''A''],
       relationships = Some [\<lparr>source = Some ''A'', target = Some ''C'',
                               relationship = Some ''implies''\<rparr>]\<rparr>" "''A''" "''C''" no_communities]
  by (simp add: get_relationships_def)

text \<open>
  Claim C4. The edges of the built graph are the unordered pairs of nodes that some
  inserted relationship joins, so several relationships between the same two nodes are one
  edge, and there are at most as many edges as relationships. The label of the edge is the
  label of the last relationship between its two nodes, read from either end. Sending the
  relationship from \<open>"A"\<close> to \<open>"B"\<close> labelled \<open>"uses"\<close> twice gives one edge, labelled
  \<open>"uses"\<close>.
\<close>

theorem C4_duplicates_collapse:
  "number_of_edges (create_networkx_graph community data) =
     int (card (edge_set (create_networkx_graph community data))) \<and>
   edge_set (create_networkx_graph community data) =
     {{s, t} | s t. \<exists>rel \<in> set (get_relationships data). endpoints rel = Some (s, t)} \<and>
   number_of_edges (create_networkx_graph community data) \<le> int (length (get_relationships data)) \<and>
   (get_relationships data = before @ rel # after \<and> endpoints rel = Some (s, t) \<and>
      (\<forall>r \<in> set after. \<not> joins r s t) \<longrightarrow>
      edge_label (create_networkx_graph community data) s t = Some (PyStr (label_of rel)) \<and>
      edge_label (create_networkx_graph community data) t s = Some (PyStr (label_of rel)) \<and>
      edge_data (create_networkx_graph community data) s t =
        edge_data (create_networkx_graph community data) t s) \<and>
   number_of_edges (create_networkx_graph community
      \<lparr>concepts = Some [''A'', ''B''],
       relationships = Some [\<lparr>source = Some ''A'', target = Some ''B'', relationship = Some ''uses''\<rparr>,
                             \<lparr>source = Some ''A'', target = Some ''B'', relationship = Some ''uses''\<rparr>]\<rparr>) = 1 \<and>
   edge_label (create_networkx_graph community
      \<lparr>concepts = Some [''A'', ''B''],
       relationships = Some [\<lparr>source = Some ''A'', target = Some ''B'', relationship = Some ''uses''\<rparr>,
                             \<lparr>source = Some ''A'', target = Some ''B'', relationship = Some ''uses''\<rparr>]\<rparr>)
     ''A'' ''B'' = Some (PyStr ''uses'')"
proof (intro conjI impI)
  show "number_of_edges (create_networkx_graph community data) =
     int (card (edge_set (create_networkx_graph community data)))"
    by (rule number_of_edges_card)
  show "edge_set (create_networkx_graph community data) =
     {{s, t} | s t. \<exists>rel \<in> set (get_relationships data). endpoints rel = Some (s, t)}"
    by (rule edge_set_create)
  show "number_of_edges (create_networkx_graph community data) \<le> int (length (get_relationships data))"
    by (rule number_of_edges_le)
next
  assume a: "get_relationships data = before @ rel # after \<and> endpoints rel = Some (s, t) \<and>
      (\<forall>r \<in> set after. \<not> joins r s t)"
  then have d: "get_relationships data = before @ rel # after" and j: "joins rel s t" "joins rel t s"
    and n: "\<forall>r \<in> set after. \<not> joins r s t" "\<forall>r \<in> set after. \<not> joins r t s"
    by (auto simp: joins_def)
  show "edge_label (create_networkx_graph community data) s t = Some (PyStr (label_of rel))"
    by (rule edge_label_last [OF d j(1) n(1)])
  show "edge_label (create_networkx_graph community data) t s = Some (PyStr (label_of rel))"
    by (rule edge_label_last [OF d j(2) n(2)])
  show "edge_data (create_networkx_graph community data) s t =
        edge_data (create_networkx_graph community data) t s"
    by (rule graph_inv_sym [OF graph_inv_create])
next
  let ?D = "\<lparr>concepts = Some [''A'', ''B''],
       relationships = Some [\<lparr>source = Some ''A'', target = Some ''B'', relationship = Some ''uses''\<rparr>,
                             \<lparr>source = Some ''A'', target = Some ''B'', relationship = Some ''uses''\<rparr>]\<rparr>"
  have b: "build_structure ?D =
      \<lparr>node = [(''A'', [(''title'', PyStr ''A'')]), (''B'', [(''title'', PyStr ''B'')])],
       adj = [(''A'', [(''B'', [(''title'', PyStr ''uses''), (''label'', PyStr ''uses'')])]),
              (''B'', [(''A'', [(''title'', PyStr ''uses''), (''label'', PyStr ''uses'')])])]\<rparr>"
    by (simp add: build_eval)
  show "number_of_edges (create_networkx_graph community ?D) = 1"
    unfolding number_of_edges_create b
    by (simp add: number_of_edges_def node_degree_def dict_contains_def)
  show "edge_label (create_networkx_graph community ?D) ''A'' ''B'' = Some (PyStr ''uses'')"
    unfolding edge_label_create b
    by (simp add: edge_label_def edge_data_def)
qed

theorem C4_duplicates_collapse_witness:
  "edge_label (create_networkx_graph no_communities
      \<lparr>concepts = Some [''A'', ''B''],
       relationships = Some [\<lparr>source = Some ''A'', target = Some ''B'', relationship = Some ''uses''\<rparr>,
                             \<lparr>source = Some ''B'', target = Some ''A'', relationship = Some ''owns''\<rparr>]\<rparr>)
     ''A'' ''B'' = Some (PyStr ''owns'') \<and>
   edge_label (create_networkx_graph no_communities
      \<lparr>concepts = Some [''A'', ''B''],
       relationships = Some [\<lparr>source = Some ''A'', target = Some ''B'', relationship = Some ''uses''\<rparr>,
                             \<lparr>source = Some ''B'', target = Some ''A'', relationship = Some ''owns''\<rparr>]\<rparr>)
     ''B'' ''A'' = Some (PyStr ''owns'')"
proof -
  let ?r1 = "\<lparr>source = Some ''A'', target = Some ''B'', relationship = Some ''uses''\<rparr>"
  let ?r2 = "\<lparr>source = Some ''B'', target = Some ''A'', relationship = Some ''owns''\<rparr>"
  let ?D = "\<lparr>concepts = Some [''A'', ''B''], relationships = Some [?r1, ?r2]\<rparr>"
  have h: "get_relationships ?D = [?r1] @ ?r2 # [] \<and> endpoints ?r2 = Some (''B'', ''A'') \<and>
      (\<forall>r \<in> set []. \<not> joins r ''B'' ''A'')"
    by (simp add: get_relationships_def endpoints_def)
  have l: "label_of ?r2 = ''owns''" by (simp add: label_of_def)
  from C4_duplicates_collapse [of no_communities ?D "[?r1]" ?r2 "[]" "''B''" "''A''"] h
  have "edge_label (create_networkx_graph no_communities ?D) ''B'' ''A'' = Some (PyStr (label_of ?r2)) \<and>
        edge_label (create_networkx_graph no_communities ?D) ''A'' ''B'' = Some (PyStr (label_of ?r2))"
    by blast
  then show ?thesis unfolding l by simp
qed

text \<open>
  Claim C5 as stated fails: the degree of a node is not the number of distinct edges
  incident to it when the node has a self-loop. The library counts the self-loop twice:
  a node whose only edge is a self-loop has degree 2 and one incident edge.
\<close>

theorem C5_degree_counterexample:
  "dict_get (degree (create_networkx_graph no_communities
      \<lparr>concepts = Some [''A''],
       relationships = Some [\<lparr>source = Some ''A'', target = Some ''A'', relationship = Some ''is''\<rparr>]\<rparr>))
     ''A'' 0 = 2 \<and>
   card {e \<in> edge_set (create_networkx_graph no_communities
      \<lparr>concepts = Some [''A''],
       relationships = Some [\<lparr>source = Some ''A'', target = Some ''A'', relationship = Some ''is''\<rparr>]\<rparr>).
     ''A'' \<in> e} = 1"
proof -
  let ?D = "\<lparr>concepts = Some [''A''],
       relationships = Some [\<lparr>source = Some ''A'', target = Some ''A'', relationship = Some ''is''\<rparr>]\<rparr>"
  have b: "build_structure ?D =
      \<lparr>node = [(''A'', [(''title'', PyStr ''A'')])],
       adj = [(''A'', [(''A'', [(''title'', PyStr ''is''), (''label'', PyStr ''is'')])])]\<rparr>"
    by (simp add: build_eval)
  have d: "dict_get (degree (create_networkx_graph no_communities ?D)) ''A'' 0 = 2"
    unfolding degree_create b
    by (simp add: degree_def node_degree_def dict_get_def dict_contains_def)
  have "edge_set (create_networkx_graph no_communities ?D) = {{''A''}}"
    unfolding edge_set_cong [OF adj_create] b by (simp add: edge_set_def)
  then have "{e \<in> edge_set (create_networkx_graph no_communities ?D). ''A'' \<in> e} = {{''A''}}"
    by auto
  then have "card {e \<in> edge_set (create_networkx_graph no_communities ?D). ''A'' \<in> e} = 1"
    by simp
  with d show ?thesis by simp
qed

text \<open>
  Claim C5, amended. In every built graph the degree of a node is the number of distinct
  edges incident to it, plus one more when the node has a self-loop (a self-loop counts
  twice), and the sum of the degrees of all nodes is twice the number of edges.
\<close>

theorem C5_degree_handshake:
  "(n \<in> set (nodes (create_networkx_graph community data)) \<longrightarrow>
      dict_get (degree (create_networkx_graph community data)) n 0 =
        int (card {e \<in> edge_set (create_networkx_graph community data). n \<in> e}) +
        (if has_edge (create_networkx_graph community data) n n then 1 else 0)) \<and>
   sum_list (map snd (degree (create_networkx_graph community data))) =
     2 * number_of_edges (create_networkx_graph community data)"
proof (intro conjI impI)
  let ?G = "create_networkx_graph community data"
  assume "n \<in> set (nodes ?G)"
  then obtain nbrs where m: "map_of (adj ?G) n = Some nbrs"
    by (rule node_has_nbrs [OF graph_inv_create])
  show "dict_get (degree ?G) n 0 =
        int (card {e \<in> edge_set ?G. n \<in> e}) + (if has_edge ?G n n then 1 else 0)"
    by (simp only: degree_of_node [OF m] card_incident_edges [OF graph_inv_create m])
next
  show "sum_list (map snd (degree (create_networkx_graph community data))) =
     2 * number_of_edges (create_networkx_graph community data)"
    by (simp only: sum_degree_values sum_degrees_create number_of_edges_card)
qed

theorem C5_degree_handshake_witness:
  "dict_get (degree (create_networkx_graph no_communities
      \<lparr>concepts = Some [''A''],
       relationships = Some [\<lparr>source = Some ''A'', target = Some ''A'', relationship = Some ''is''\<rparr>]\<rparr>))
     ''A'' 0 =
   int (card {e \<in> edge_set (create_networkx_graph no_communities
      \<lparr>concepts = Some [''A''],
       relationships = Some [\<lparr>source = Some ''A'', target = Some ''A'', relationship = Some ''is''\<rparr>]\<rparr>).
     ''A'' \<in> e}) + 1"
proof -
  let ?D = "\<lparr>concepts = Some [''A''],
       relationships = Some [\<lparr>source = Some ''A'', target = Some ''A'', relationship = Some ''is''\<rparr>]\<rparr>"
  have n: "''A'' \<in> set (nodes (create_networkx_graph no_communities ?D))"
    by (simp add: nodes_create nodes_build_structure get_concepts_def)
  have h: "has_edge (create_networkx_graph no_communities ?D) ''A'' ''A''"
    by (simp add: has_edge_create has_edge_build_structure get_relationships_def joins_def endpoints_def)
  from C5_degree_handshake [of "''A''" no_communities ?D] n h show ?thesis by simp
qed

text \<open>
  Claim C6 as stated fails: of two relationships between \<open>"A"\<close> and \<open>"B"\<close>, labelled
  \<open>"uses"\<close> and then \<open>"owns"\<close>, the first label is on no edge of the built graph.
\<close>

theorem C6_label_round_trip_counterexample:
  "Some (PyStr ''uses'') \<notin> set (edge_labels (create_networkx_graph no_communities
      \<lparr>concepts = Some [''A'', ''B''],
       relationships = Some [\<lparr>source = Some ''A'', target = Some ''B'', relationship = Some ''uses''\<rparr>,
                             \<lparr>source = Some ''A'', target = Some ''B'', relationship = Some ''owns''\<rparr>]\<rparr>))"
proof -
  let ?D = "\<lparr>concepts = Some [''A'', ''B''],
       relationships = Some [\<lparr>source = Some ''A'', target = Some ''B'', relationship = Some ''uses''\<rparr>,
                             \<lparr>source = Some ''A'', target = Some ''B'', relationship = Some ''owns''\<rparr>]\<rparr>"
  have b: "build_structure ?D =
      \<lparr>node = [(''A'', [(''title'', PyStr ''A'')]), (''B'', [(''title'', PyStr ''B'')])],
       adj = [(''A'', [(''B'', [(''title'', PyStr ''owns''), (''label'', PyStr ''owns'')])]),
              (''B'', [(''A'', [(''title'', PyStr ''owns''), (''label'', PyStr ''owns'')])])]\<rparr>"
    by (simp add: build_eval)
  show ?thesis
    unfolding edge_labels_create b by (simp add: edge_labels_def)
qed

text \<open>
  Claim C6, amended. The label of a relationship with a non-empty source and a non-empty
  target is the label of some edge of the built graph, unless a later relationship joins
  the same two nodes.
\<close>

theorem C6_label_round_trip:
  "get_relationships data = before @ rel # after \<and> endpoints rel = Some (s, t) \<and>
     (\<forall>r \<in> set after. \<not> joins r s t) \<longrightarrow>
   Some (PyStr (label_of rel)) \<in> set (edge_labels (create_networkx_graph community data))"
proof
  assume a: "get_relationships data = before @ rel # after \<and> endpoints rel = Some (s, t) \<and>
     (\<forall>r \<in> set after. \<not> joins r s t)"
  then have "joins rel s t" by (simp add: joins_def)
  with a have "edge_label (create_networkx_graph community data) s t = Some (PyStr (label_of rel))"
    by (intro edge_label_last [of data before rel after]) simp_all
  then show "Some (PyStr (label_of rel)) \<in> set (edge_labels (create_networkx_graph community data))"
    by (rule edge_label_in_edge_labels)
qed

theorem C6_label_round_trip_witness:
  "Some (PyStr ''owns'') \<in> set (edge_labels (create_networkx_graph no_communities
      \<lparr>concepts = Some [''A'', ''B''],
       relationships = Some [\<lparr>source = Some ''A'', target = Some ''B'', relationship = Some ''uses''\<rparr>,
                             \<lparr>source = Some ''A'', target = Some ''B'', relationship = Some ''owns''\<rparr>]\<rparr>))"
  using C6_label_round_trip [of
      "\<lparr>concepts = Some [''A'', ''B''],
       relationships = Some [\<lparr>source = Some ''A'', target = Some ''B'', relationship = Some ''uses''\<rparr>,
                             \<lparr>source = Some ''A'', target = Some ''B'', relationship = Some ''owns''\<rparr>]\<rparr>"
      "[\<lparr>source = Some ''A'', target = Some ''B'', relationship = Some ''uses''\<rparr>]"
      "\<lparr>source = Some ''A'', target = Some ''B'', relationship = Some ''owns''\<rparr>" "[]" "''A''" "''B''"
      no_communities]
  by (simp add: get_relationships_def endpoints_def label_of_def)

text \<open>
  Claim C7. Every node of the built graph has the size 20 plus five times its degree, so a
  node without edges has size 20. For the concepts \<open>["A", "B"]\<close> and the one relationship
  from \<open>"A"\<close> to \<open>"B"\<close> labelled \<open>"uses"\<close>, the graph has the two nodes and one edge,
  labelled \<open>"uses"\<close>, and both nodes have degree 1 and size 25.
\<close>

theorem C7_node_size:
  "(n \<in> set (nodes (create_networkx_graph community data)) \<longrightarrow>
      node_attr (create_networkx_graph community data) n ''size'' =
        Some (PyInt (20 + dict_get (degree (create_networkx_graph community data)) n 0 * 5)) \<and>
      ((\<forall>v. \<not> has_edge (create_networkx_graph community data) n v) \<longrightarrow>
         node_attr (create_networkx_graph community data) n ''size'' = Some (PyInt 20))) \<and>
   nodes (create_networkx_graph community
      \<lparr>concepts = Some [''A'', ''B''],
       relationships = Some [\<lparr>source = Some ''A'', target = Some ''B'', relationship = Some ''uses''\<rparr>]\<rparr>)
     = [''A'', ''B''] \<and>
   number_of_edges (create_networkx_graph community
      \<lparr>concepts = Some [''A'', ''B''],
       relationships = Some [\<lparr>source = Some ''A'', target = Some ''B'', relationship = Some ''uses''\<rparr>]\<rparr>)
     = 1 \<and>
   edge_label (create_networkx_graph community
      \<lparr>concepts = Some [''A'', ''B''],
       relationships = Some [\<lparr>source = Some ''A'', target = Some ''B'', relationship = Some ''uses''\<rparr>]\<rparr>)
     ''A'' ''B'' = Some (PyStr ''uses'') \<and>
   degree (create_networkx_graph community
      \<lparr>concepts = Some [''A'', ''B''],
       relationships = Some [\<lparr>source = Some ''A'', target = Some ''B'', relationship = Some ''uses''\<rparr>]\<rparr>)
     = [(''A'', 1), (''B'', 1)] \<and>
   node_attr (create_networkx_graph community
      \<lparr>concepts = Some [''A'', ''B''],
       relationships = Some [\<lparr>source = Some ''A'', target = Some ''B'', relationship = Some ''uses''\<rparr>]\<rparr>)
     ''A'' ''size'' = Some (PyInt 25) \<and>
   node_attr (create_networkx_graph community
      \<lparr>concepts = Some [''A'', ''B''],
       relationships = Some [\<lparr>source = Some ''A'', target = Some ''B'', relationship = Some ''uses''\<rparr>]\<rparr>)
     ''B'' ''size'' = Some (PyInt 25)"
proof -
  let ?G = "create_networkx_graph community data"
  have general: "n \<in> set (nodes ?G) \<longrightarrow>
      node_attr ?G n ''size'' = Some (PyInt (20 + dict_get (degree ?G) n 0 * 5)) \<and>
      ((\<forall>v. \<not> has_edge ?G n v) \<longrightarrow> node_attr ?G n ''size'' = Some (PyInt 20))"
  proof (intro impI conjI)
    assume n: "n \<in> set (nodes ?G)"
    show s: "node_attr ?G n ''size'' = Some (PyInt (20 + dict_get (degree ?G) n 0 * 5))"
      by (rule size_create [OF n])
    assume i: "\<forall>v. \<not> has_edge ?G n v"
    from n obtain nbrs where m: "map_of (adj ?G) n = Some nbrs"
      by (rule node_has_nbrs [OF graph_inv_create])
    show "node_attr ?G n ''size'' = Some (PyInt 20)"
      by (simp add: s isolated_degree [OF m i])
  qed
  let ?D = "\<lparr>concepts = Some [''A'', ''B''],
       relationships = Some [\<lparr>source = Some ''A'', target = Some ''B'', relationship = Some ''uses''\<rparr>]\<rparr>"
  let ?H = "create_networkx_graph community ?D"
  have b: "build_structure ?D =
      \<lparr>node = [(''A'', [(''title'', PyStr ''A'')]), (''B'', [(''title'', PyStr ''B'')])],
       adj = [(''A'', [(''B'', [(''title'', PyStr ''uses''), (''label'', PyStr ''uses'')])]),
              (''B'', [(''A'', [(''title'', PyStr ''uses''), (''label'', PyStr ''uses'')])])]\<rparr>"
    by (simp add: build_eval)
  have ns: "nodes ?H = [''A'', ''B'']"
    unfolding nodes_create b by (simp add: nodes_def)
  have ne: "number_of_edges ?H = 1"
    unfolding number_of_edges_create b
    by (simp add: number_of_edges_def node_degree_def dict_contains_def)
  have el: "edge_label ?H ''A'' ''B'' = Some (PyStr ''uses'')"
    unfolding edge_label_create b by (simp add: edge_label_def edge_data_def)
  have dg: "degree ?H = [(''A'', 1), (''B'', 1)]"
    unfolding degree_create b by (simp add: degree_def node_degree_def dict_contains_def)
  have sa: "node_attr ?H ''A'' ''size'' = Some (PyInt 25)"
    using size_create [of "''A''" community ?D] by (simp add: ns dg dict_get_def)
  have sb: "node_attr ?H ''B'' ''size'' = Some (PyInt 25)"
    using size_create [of "''B''" community ?D] by (simp add: ns dg dict_get_def)
  from general ns ne el dg sa sb show ?thesis by blast
qed

theorem C7_node_size_witness:
  "node_attr (create_networkx_graph no_communities
      \<lparr>concepts = Some [''A'', ''B'', ''Z''],
       relationships = Some [\<lparr>source = Some ''A'', target = Some ''B'', relationship = Some ''uses''\<rparr>]\<rparr>)
     ''Z'' ''size'' = Some (PyInt 20)"
proof -
  let ?D = "\<lparr>concepts = Some [''A'', ''B'', ''Z''],
       relationships = Some [\<lparr>source = Some ''A'', target = Some ''B'', relationship = Some ''uses''\<rparr>]\<rparr>"
  have n: "''Z'' \<in> set (nodes (create_networkx_graph no_communities ?D))"
    by (simp add: nodes_create nodes_build_structure get_concepts_def)
  have h: "\<forall>v. \<not> has_edge (create_networkx_graph no_communities ?D) ''Z'' v"
    by (simp add: has_edge_create has_edge_build_structure get_relationships_def joins_def endpoints_def)
  from C7_node_size [of "''Z''" no_communities ?D] n h show ?thesis by blast
qed




text \<open>
  Claim C9. When the call to the provider raises, or the text it returns does not parse as
  JSON, the Extraction Client shows one error, made of a fixed prefix and the text of the
  exception, and returns nothing; one call has been made to the provider. The Application
  Shell then builds no graph and shows nothing after the error: no metric, no rendering.
\<close>

theorem C9_extraction_failure:
  "api_key = Some key \<and> key \<noteq> [] \<and> pressed \<and> strip text_input \<noteq> [] \<and>
     (chat_completion key text_input = Inl e \<or>
      (chat_completion key text_input = Inr content \<and> json_loads content = Inl e)) \<longrightarrow>
   extract_knowledge_graph chat_completion json_loads text_input key w =
     (None, w\<lparr>api_calls := Suc (api_calls w),
              ui := ui w @ [St_error (''Error calling Groq API: '' @ e)]\<rparr>) \<and>
   main chat_completion json_loads community create_pyvis_graph api_key text_input pressed w =
     (None, w\<lparr>api_calls := Suc (api_calls w),
              ui := ui w @ [St_spinner ''Processing with Llama-3 on Groq...'',
                            St_error (''Error calling Groq API: '' @ e)]\<rparr>)"
proof (intro impI conjI)
  assume a: "api_key = Some key \<and> key \<noteq> [] \<and> pressed \<and> strip text_input \<noteq> [] \<and>
     (chat_completion key text_input = Inl e \<or>
      (chat_completion key text_input = Inr content \<and> json_loads content = Inl e))"
  then have f: "chat_completion key text_input = Inl e \<or>
      (chat_completion key text_input = Inr content \<and> json_loads content = Inl e)" by simp
  show "extract_knowledge_graph chat_completion json_loads text_input key w =
     (None, w\<lparr>api_calls := Suc (api_calls w),
              ui := ui w @ [St_error (''Error calling Groq API: '' @ e)]\<rparr>)"
    using f by (rule extract_failure)
  have x: "extract_knowledge_graph chat_completion json_loads text_input key w' =
     (None, w'\<lparr>api_calls := Suc (api_calls w'),
              ui := ui w' @ [St_error (''Error calling Groq API: '' @ e)]\<rparr>)" for w'
    using f by (rule extract_failure)
  from a show "main chat_completion json_loads community create_pyvis_graph api_key text_input pressed w =
     (None, w\<lparr>api_calls := Suc (api_calls w),
              ui := ui w @ [St_spinner ''Processing with Llama-3 on Groq...'',
                            St_error (''Error calling Groq API: '' @ e)]\<rparr>)"
    by (simp add: main_def truthy_def x show_event_def)
qed

theorem C9_extraction_failure_witness:
  "main unreachable_provider rejecting_parser no_communities plain_renderer
     (Some ''gsk_key'') ''Graphs have nodes.'' True \<lparr>api_calls = 0, ui = []\<rparr> =
     (None, \<lparr>api_calls = 1,
             ui = [St_spinner ''Processing with Llama-3 on Groq...'',
                   St_error ''Error calling Groq API: Connection error.'']\<rparr>) \<and>
   main malformed_provider rejecting_parser no_communities plain_renderer
     (Some ''gsk_key'') ''Graphs have nodes.'' True \<lparr>api_calls = 0, ui = []\<rparr> =
     (None, \<lparr>api_calls = 1,
             ui = [St_spinner ''Processing with Llama-3 on Groq...'',
                   St_error ''Error calling Groq API: Expecting property name enclosed in double quotes'']\<rparr>)"
proof -
  have s: "strip ''Graphs have nodes.'' \<noteq> []"
    by (simp add: strip_def is_space_def)
  have "main unreachable_provider rejecting_parser no_communities plain_renderer
     (Some ''gsk_key'') ''Graphs have nodes.'' True \<lparr>api_calls = 0, ui = []\<rparr> =
     (None, \<lparr>api_calls = 1,
             ui = [St_spinner ''Processing with Llama-3 on Groq...'',
                   St_error ''Error calling Groq API: Connection error.'']\<rparr>)"
    using C9_extraction_failure [of "Some ''gsk_key''" "''gsk_key''" True "''Graphs have nodes.''"
        unreachable_provider "''Connection error.''" "[]" rejecting_parser
        "\<lparr>api_calls = 0, ui = []\<rparr>" no_communities plain_renderer] s
    by (simp add: unreachable_provider_def)
  moreover have "main malformed_provider rejecting_parser no_communities plain_renderer
     (Some ''gsk_key'') ''Graphs have nodes.'' True \<lparr>api_calls = 0, ui = []\<rparr> =
     (None, \<lparr>api_calls = 1,
             ui = [St_spinner ''Processing with Llama-3 on Groq...'',
                   St_error ''Error calling Groq API: Expecting property name enclosed in double quotes'']\<rparr>)"
    using C9_extraction_failure [of "Some ''gsk_key''" "''gsk_key''" True "''Graphs have nodes.''"
        malformed_provider "''Expecting property name enclosed in double quotes''" "''{concepts''"
        rejecting_parser "\<lparr>api_calls = 0, ui = []\<rparr>" no_communities plain_renderer] s
    by (simp add: malformed_provider_def rejecting_parser_def)
  ultimately show ?thesis by simp
qed

text \<open>
  Claim C10. A relationship whose source and target are non-empty and whose
  \<open>relationship\<close> field is absent is inserted: the call that adds it leaves the empty
  string as the label of the edge, the built graph has the edge, and its label is the
  empty string unless a later relationship between the same two nodes overwrites it.
\<close>

theorem C10_missing_label:
  "source rel = Some s \<and> target rel = Some t \<and> s \<noteq> [] \<and> t \<noteq> [] \<and> relationship rel = None \<longrightarrow>
     edge_label (add_relationship rel G) s t = Some (PyStr []) \<and>
     (get_relationships data = before @ rel # after \<longrightarrow>
        has_edge (create_networkx_graph community data) s t \<and>
        ((\<forall>r \<in> set after. \<not> joins r s t) \<longrightarrow>
           edge_label (create_networkx_graph community data) s t = Some (PyStr [])))"
proof (intro impI conjI)
  assume a: "source rel = Some s \<and> target rel = Some t \<and> s \<noteq> [] \<and> t \<noteq> [] \<and> relationship rel = None"
  then have e: "endpoints rel = Some (s, t)" by (simp add: endpoints_SomeI)
  from a have l: "label_of rel = []" by (simp add: label_of_def)
  from e have j: "joins rel s t" by (simp add: joins_def)
  show "edge_label (add_relationship rel G) s t = Some (PyStr [])"
    by (simp add: add_relationship_endpoints e l edge_label_add_edge_self)
  assume d: "get_relationships data = before @ rel # after"
  then have "rel \<in> set (get_relationships data)" by simp
  with j show "has_edge (create_networkx_graph community data) s t"
    by (auto simp: has_edge_create has_edge_build_structure)
  assume "\<forall>r \<in> set after. \<not> joins r s t"
  from edge_label_last [OF d j this] l
  show "edge_label (create_networkx_graph community data) s t = Some (PyStr [])"
    by simp
qed

theorem C10_missing_label_witness:
  "edge_label (add_relationship \<lparr>source = Some ''A'', target = Some ''B'', relationship = None\<rparr> empty_graph)
     ''A'' ''B'' = Some (PyStr []) \<and>
   has_edge (create_networkx_graph no_communities
      \<lparr>concepts = Some [''A'', ''B''],
       relationships = Some [\<lparr>source = Some ''A'', target = Some ''B'', relationship = None\<rparr>]\<rparr>) ''A'' ''B'' \<and>
   edge_label (create_networkx_graph no_communities
      \<lparr>concepts = Some [''A'', ''B''],
       relationships = Some [\<lparr>source = Some ''A'', target = Some ''B'', relationship = None\<rparr>]\<rparr>) ''A'' ''B'' =
     Some (PyStr [])"
  using C10_missing_label [of "\<lparr>source = Some ''A'', target = Some ''B'', relationship = None\<rparr>"
      "''A''" "''B''" empty_graph
      "\<lparr>concepts = Some [''A'', ''B''],
       relationships = Some [\<lparr>source = Some ''A'', target = Some ''B'', relationship = None\<rparr>]\<rparr>"
      "[]" "[]" no_communities]
  by (simp add: get_relationships_def)

end
